theory Spec2Isabelle
  imports Complex_Main "HOL-Library.Word"
begin

unbundle bit_operations_syntax

section \<open>Iterated Prisoner's Dilemma: the simulation engine\<close>

text \<open>
  A shallow embedding of the engine in \<^verbatim>\<open>simulation.js\<close>: the seeded random source, the
  payoff matrix, the five strategies and their factory, the match engine \<^verbatim>\<open>Game\<close> and the
  \<^verbatim>\<open>Tournament\<close>. JavaScript numbers that hold payoffs, scores and rates are modelled as
  \<^typ>\<open>real\<close> (exact arithmetic; rounding of doubles is not modelled). The value of a draw,
  a 32-bit unsigned integer divided by \<open>2^32\<close>, is exact in a double as well.
  Every \<^verbatim>\<open>throw\<close> of the source is an \<open>Inl\<close> result.
\<close>

subsection \<open>Actions and errors\<close>

datatype action = COOPERATE | DEFECT

text \<open>\<^verbatim>\<open>new Error(message)\<close>, and the \<^verbatim>\<open>TypeError\<close> of a property read or written on
  \<^verbatim>\<open>undefined\<close>.\<close>

datatype error = Error string | TypeError

subsection \<open>SeededRandom\<close>

text \<open>
  The field \<^verbatim>\<open>seed\<close> is a JavaScript number: \<^verbatim>\<open>this.seed += 0x6D2B79F5\<close> adds without
  wrapping, so the seed is an unbounded integer here (exact in a double below \<open>2^53\<close>, that
  is for several million draws from a 32-bit seed). The bit operations and \<^verbatim>\<open>Math.imul\<close>
  convert their operands to 32 bits first, which is \<open>word_of_int\<close>; \<^verbatim>\<open>>>>\<close> is the
  logical shift \<open>drop_bit\<close>, and the final \<^verbatim>\<open>>>> 0\<close> reads the word as unsigned.
\<close>

record SeededRandom =
  seed :: int

definition imul :: "32 word \<Rightarrow> 32 word \<Rightarrow> 32 word" where
  "imul a b = a * b"

definition random_sr :: "SeededRandom \<Rightarrow> real \<times> SeededRandom" where
  "random_sr g =
     (let s = seed g + 0x6D2B79F5;
          t0 = (word_of_int s :: 32 word);
          t1 = imul (t0 XOR drop_bit 15 t0) (t0 OR 1);
          t2 = t1 XOR (t1 + imul (t1 XOR drop_bit 7 t1) (t1 OR 61))
      in (real_of_int (uint (t2 XOR drop_bit 14 t2)) / 4294967296, g\<lparr>seed := s\<rparr>))"

definition reset_sr :: "SeededRandom \<Rightarrow> int \<Rightarrow> SeededRandom" where
  "reset_sr g s = g\<lparr>seed := s\<rparr>"

text \<open>\<open>n\<close> successive calls of \<^verbatim>\<open>random()\<close>: the values drawn, in order, and the source
  after them.\<close>

primrec draws :: "nat \<Rightarrow> SeededRandom \<Rightarrow> real list \<times> SeededRandom" where
  "draws 0 g = ([], g)"
| "draws (Suc n) g =
     (let (v, g1) = random_sr g; (vs, g2) = draws n g1 in (v # vs, g2))"

text \<open>The state shared by the whole program: \<^verbatim>\<open>globalRandom\<close>, and the lines written by
  \<^verbatim>\<open>console.warn\<close>.\<close>

record world =
  globalRandom :: SeededRandom
  console :: "string list"

subsection \<open>PayoffMatrix\<close>

record PayoffMatrix =
  T :: real
  R :: real
  P :: real
  S :: real

definition getPayoff :: "PayoffMatrix \<Rightarrow> action \<Rightarrow> action \<Rightarrow> real \<times> real" where
  "getPayoff m action1 action2 =
     (if action1 = COOPERATE \<and> action2 = COOPERATE then (R m, R m)
      else if action1 = COOPERATE \<and> action2 = DEFECT then (S m, T m)
      else if action1 = DEFECT \<and> action2 = COOPERATE then (T m, S m)
      else (P m, P m))"

subsection \<open>Strategies\<close>

text \<open>
  The class of a strategy object with the fields the subclass adds: \<open>Strategy\<close> is the base
  class itself, whose \<^verbatim>\<open>makeMove\<close> throws; \<open>GrimTrigger\<close> carries \<^verbatim>\<open>triggered\<close> and
  \<open>GenerousTitForTat\<close> carries \<^verbatim>\<open>forgiveness\<close>.
\<close>

datatype variant =
    Strategy
  | AlwaysCooperate
  | AlwaysDefect
  | TitForTat
  | GrimTrigger bool
  | GenerousTitForTat real

record strategy =
  name :: string
  history :: "action list"
  opponentHistory :: "action list"
  score :: real
  variant :: variant

definition newStrategy :: "string \<Rightarrow> variant \<Rightarrow> strategy" where
  "newStrategy n v =
     \<lparr>name = n, history = [], opponentHistory = [], score = 0, variant = v\<rparr>"

definition newAlwaysCooperate :: strategy where
  "newAlwaysCooperate = newStrategy ''Always Cooperate (ALL-C)'' AlwaysCooperate"

definition newAlwaysDefect :: strategy where
  "newAlwaysDefect = newStrategy ''Always Defect (ALL-D)'' AlwaysDefect"

definition newTitForTat :: strategy where
  "newTitForTat = newStrategy ''Tit-for-Tat (TFT)'' TitForTat"

definition newGrimTrigger :: strategy where
  "newGrimTrigger = newStrategy ''Grim Trigger'' (GrimTrigger False)"

text \<open>The constructor's parameter has the default \<^verbatim>\<open>forgiveness = 0.1\<close>, taken when the
  argument is \<^verbatim>\<open>undefined\<close> (\<open>None\<close>).\<close>

definition newGenerousTitForTat :: "real option \<Rightarrow> strategy" where
  "newGenerousTitForTat fo =
     newStrategy ''Generous TFT''
       (GenerousTitForTat (case fo of None \<Rightarrow> 0.1 | Some f \<Rightarrow> f))"

text \<open>\<^verbatim>\<open>makeMove\<close> returns the move; \<open>GrimTrigger\<close> may change the strategy object and
  \<open>GenerousTitForTat\<close> may draw from \<^verbatim>\<open>globalRandom\<close>, so both are returned updated.\<close>

definition makeMove :: "strategy \<Rightarrow> world \<Rightarrow> error + (action \<times> strategy \<times> world)" where
  "makeMove s w =
     (case variant s of
        Strategy \<Rightarrow> Inl (Error ''makeMove() must be implemented'')
      | AlwaysCooperate \<Rightarrow> Inr (COOPERATE, s, w)
      | AlwaysDefect \<Rightarrow> Inr (DEFECT, s, w)
      | TitForTat \<Rightarrow>
          if length (opponentHistory s) = 0 then Inr (COOPERATE, s, w)
          else Inr (last (opponentHistory s), s, w)
      | GrimTrigger triggered \<Rightarrow>
          if triggered then Inr (DEFECT, s, w)
          else if length (opponentHistory s) > 0 \<and> last (opponentHistory s) = DEFECT
          then Inr (DEFECT, s\<lparr>variant := GrimTrigger True\<rparr>, w)
          else Inr (COOPERATE, s, w)
      | GenerousTitForTat forgiveness \<Rightarrow>
          if length (opponentHistory s) = 0 then Inr (COOPERATE, s, w)
          else if last (opponentHistory s) = COOPERATE then Inr (COOPERATE, s, w)
          else
            (let (d, g) = random_sr (globalRandom w);
                 w1 = w\<lparr>globalRandom := g\<rparr>
             in if d < forgiveness then Inr (COOPERATE, s, w1) else Inr (DEFECT, s, w1)))"

definition recordMove :: "strategy \<Rightarrow> action \<Rightarrow> action \<Rightarrow> strategy" where
  "recordMove s myMove opponentMove =
     s\<lparr>history := history s @ [myMove],
       opponentHistory := opponentHistory s @ [opponentMove]\<rparr>"

definition updateScore :: "strategy \<Rightarrow> real \<Rightarrow> strategy" where
  "updateScore s payoff = s\<lparr>score := score s + payoff\<rparr>"

text \<open>\<^verbatim>\<open>reset\<close>: the base class clears both histories and the score; \<open>GrimTrigger\<close>
  overrides it to clear \<^verbatim>\<open>triggered\<close> as well.\<close>

definition reset :: "strategy \<Rightarrow> strategy" where
  "reset s =
     s\<lparr>history := [], opponentHistory := [], score := 0,
       variant := (case variant s of GrimTrigger triggered \<Rightarrow> GrimTrigger False | v \<Rightarrow> v)\<rparr>"

definition getCooperationRate :: "strategy \<Rightarrow> real" where
  "getCooperationRate s =
     (if length (history s) = 0 then 0
      else real (length (filter (\<lambda>move. move = COOPERATE) (history s)))
             / real (length (history s)))"

subsection \<open>StrategyFactory\<close>

text \<open>The parameter object: \<^verbatim>\<open>params.forgiveness\<close> is \<open>None\<close> when it is
  \<^verbatim>\<open>undefined\<close>.\<close>

record params =
  forgiveness :: "real option"

definition createStrategy :: "string \<Rightarrow> params \<Rightarrow> error + strategy" where
  "createStrategy strategyCode ps =
     (if strategyCode = ''ALLC'' then Inr newAlwaysCooperate
      else if strategyCode = ''ALLD'' then Inr newAlwaysDefect
      else if strategyCode = ''TFT'' then Inr newTitForTat
      else if strategyCode = ''GRIM'' then Inr newGrimTrigger
      else if strategyCode = ''GTFT'' then
        (let f = (case forgiveness ps of Some v \<Rightarrow> v | None \<Rightarrow> 0.1)
         in Inr (newGenerousTitForTat (Some f)))
      else Inl (Error (''Unknown strategy: '' @ strategyCode)))"

definition getAllStrategyCodes :: "string list" where
  "getAllStrategyCodes = [''ALLC'', ''ALLD'', ''TFT'', ''GRIM'', ''GTFT'']"

subsection \<open>Game: one match between two strategies\<close>

text \<open>One entry of \<^verbatim>\<open>roundHistory\<close>; its field \<^verbatim>\<open>round\<close> is \<open>round_no\<close> here. In a
  game, \<^verbatim>\<open>continuationProb\<close> is \<open>None\<close> when it is \<^verbatim>\<open>null\<close>, which selects the fixed mode;
  \<^verbatim>\<open>numRounds\<close> is an integer, and is not read in the indefinite mode.\<close>

record roundRecord =
  round_no :: nat
  move1 :: action
  move2 :: action
  payoff1 :: real
  payoff2 :: real
  cumScore1 :: real
  cumScore2 :: real

record Game =
  strategy1 :: strategy
  strategy2 :: strategy
  payoffMatrix :: PayoffMatrix
  numRounds :: int
  continuationProb :: "real option"
  roundHistory :: "roundRecord list"

definition newGame ::
  "strategy \<Rightarrow> strategy \<Rightarrow> PayoffMatrix \<Rightarrow> int \<Rightarrow> real option \<Rightarrow> Game" where
  "newGame s1 s2 pm n cp =
     \<lparr>strategy1 = s1, strategy2 = s2, payoffMatrix = pm, numRounds = n,
      continuationProb = cp, roundHistory = []\<rparr>"

text \<open>\<^verbatim>\<open>playRound\<close>: the two strategy objects of a game are distinct objects. The object
  that the source returns is dropped by both callers and is left out.\<close>

definition playRound :: "Game \<Rightarrow> world \<Rightarrow> error + (Game \<times> world)" where
  "playRound g w =
     (case makeMove (strategy1 g) w of
        Inl e \<Rightarrow> Inl e
      | Inr (m1, s1, w1) \<Rightarrow>
          (case makeMove (strategy2 g) w1 of
             Inl e \<Rightarrow> Inl e
           | Inr (m2, s2, w2) \<Rightarrow>
               (let (p1, p2) = getPayoff (payoffMatrix g) m1 m2;
                    s1r = recordMove s1 m1 m2;
                    s2r = recordMove s2 m2 m1;
                    s1u = updateScore s1r p1;
                    s2u = updateScore s2r p2
                in Inr (g\<lparr>strategy1 := s1u, strategy2 := s2u,
                          roundHistory := roundHistory g @
                            [\<lparr>round_no = length (roundHistory g) + 1,
                              move1 = m1, move2 = m2, payoff1 = p1, payoff2 = p2,
                              cumScore1 = score s1u, cumScore2 = score s2u\<rparr>]\<rparr>,
                        w2))))"

definition maxRounds :: nat where
  "maxRounds = 10000"

text \<open>The \<^verbatim>\<open>for\<close> loop of the fixed mode, from counter \<open>i\<close> up to \<open>n\<close>, the value of
  \<^verbatim>\<open>this.numRounds\<close> (no round writes that field).\<close>

function fixedLoop :: "int \<Rightarrow> int \<Rightarrow> Game \<Rightarrow> world \<Rightarrow> error + (Game \<times> world)" where
  "fixedLoop i n g w =
     (if i < n then
        (case playRound g w of
           Inl e \<Rightarrow> Inl e
         | Inr (g1, w1) \<Rightarrow> fixedLoop (i + 1) n g1 w1)
      else Inr (g, w))"
  by pat_completeness auto
termination
  by (relation "measure (\<lambda>(i, n, g, w). nat (n - i))") auto

text \<open>The \<^verbatim>\<open>while\<close> loop of the indefinite mode, with \<open>p\<close> the value of
  \<^verbatim>\<open>this.continuationProb\<close>: the condition draws first, whatever \<open>roundCount\<close> is, and
  only then compares \<open>roundCount\<close> with the limit. It returns the final \<open>roundCount\<close>.\<close>

function whileLoop ::
  "real \<Rightarrow> nat \<Rightarrow> Game \<Rightarrow> world \<Rightarrow> error + (Game \<times> world \<times> nat)" where
  "whileLoop p roundCount g w =
     (let (d, r) = random_sr (globalRandom w);
          w1 = w\<lparr>globalRandom := r\<rparr>
      in if d < p \<and> roundCount < maxRounds then
           (case playRound g w1 of
              Inl e \<Rightarrow> Inl e
            | Inr (g1, w2) \<Rightarrow> whileLoop p (roundCount + 1) g1 w2)
         else Inr (g, w1, roundCount))"
  by pat_completeness auto
termination
  by (relation "measure (\<lambda>(p, roundCount, g, w). maxRounds - roundCount)") auto

text \<open>The object returned by \<^verbatim>\<open>play\<close>; its field \<^verbatim>\<open>roundHistory\<close> is \<open>rounds\<close> here.\<close>

record MatchResult =
  strategy1Name :: string
  strategy2Name :: string
  finalScore1 :: real
  finalScore2 :: real
  cooperationRate1 :: real
  cooperationRate2 :: real
  rounds :: "roundRecord list"

definition matchResult :: "Game \<Rightarrow> MatchResult" where
  "matchResult g =
     \<lparr>strategy1Name = name (strategy1 g),
      strategy2Name = name (strategy2 g),
      finalScore1 = score (strategy1 g),
      finalScore2 = score (strategy2 g),
      cooperationRate1 = getCooperationRate (strategy1 g),
      cooperationRate2 = getCooperationRate (strategy2 g),
      rounds = roundHistory g\<rparr>"

definition startMatch :: "Game \<Rightarrow> Game" where
  "startMatch g =
     g\<lparr>strategy1 := reset (strategy1 g), strategy2 := reset (strategy2 g),
       roundHistory := []\<rparr>"

text \<open>\<^verbatim>\<open>play\<close> returns the result, the game object as the match leaves it, and the
  world.\<close>

definition play :: "Game \<Rightarrow> world \<Rightarrow> error + (MatchResult \<times> Game \<times> world)" where
  "play g0 w =
     (let g = startMatch g0 in
      case
        (case continuationProb g of
           Some p \<Rightarrow>
             (case playRound g w of
                Inl e \<Rightarrow> Inl e
              | Inr (g1, w1) \<Rightarrow>
                  (case whileLoop p 1 g1 w1 of
                     Inl e \<Rightarrow> Inl e
                   | Inr (g2, w2, roundCount) \<Rightarrow>
                       Inr (g2,
                            if roundCount \<ge> maxRounds then
                              w2\<lparr>console := console w2 @
                                   [''Game reached maximum round limit of 10000 rounds'']\<rparr>
                            else w2)))
         | None \<Rightarrow> fixedLoop 0 (numRounds g) g w)
      of
        Inl e \<Rightarrow> Inl e
      | Inr (g3, w3) \<Rightarrow> Inr (matchResult g3, g3, w3))"

subsection \<open>Tournament\<close>

text \<open>The fields \<^verbatim>\<open>payoffMatrix\<close>, \<^verbatim>\<open>numRounds\<close>, \<^verbatim>\<open>continuationProb\<close> of a tournament
  carry the prefix \<open>t_\<close> here, the field names of \<open>Game\<close> being taken.\<close>

record Tournament =
  t_payoffMatrix :: PayoffMatrix
  t_numRounds :: int
  t_continuationProb :: "real option"
  strategyParams :: params
  results :: "MatchResult list"

definition newTournament ::
  "PayoffMatrix \<Rightarrow> int \<Rightarrow> params \<Rightarrow> real option \<Rightarrow> Tournament" where
  "newTournament pm n ps cp =
     \<lparr>t_payoffMatrix = pm, t_numRounds = n, t_continuationProb = cp,
      strategyParams = ps, results = []\<rparr>"

text \<open>The lines that \<^verbatim>\<open>runPairwise\<close> and both loops of \<^verbatim>\<open>runRoundRobin\<close> repeat: two
  strategies from the factory, a new game, \<^verbatim>\<open>play\<close>.\<close>

definition playMatch ::
  "Tournament \<Rightarrow> string \<Rightarrow> string \<Rightarrow> world \<Rightarrow> error + (MatchResult \<times> world)" where
  "playMatch t strategyCode1 strategyCode2 w =
     (case createStrategy strategyCode1 (strategyParams t) of
        Inl e \<Rightarrow> Inl e
      | Inr s1 \<Rightarrow>
          (case createStrategy strategyCode2 (strategyParams t) of
             Inl e \<Rightarrow> Inl e
           | Inr s2 \<Rightarrow>
               (case play (newGame s1 s2 (t_payoffMatrix t) (t_numRounds t)
                             (t_continuationProb t)) w of
                  Inl e \<Rightarrow> Inl e
                | Inr (result, g, w1) \<Rightarrow> Inr (result, w1))))"

definition runPairwise ::
  "Tournament \<Rightarrow> string \<Rightarrow> string \<Rightarrow> world \<Rightarrow> error + (MatchResult \<times> Tournament \<times> world)" where
  "runPairwise t strategyCode1 strategyCode2 w =
     (case playMatch t strategyCode1 strategyCode2 w of
        Inl e \<Rightarrow> Inl e
      | Inr (result, w1) \<Rightarrow> Inr (result, t\<lparr>results := [result]\<rparr>, w1))"

text \<open>A loop body that may throw, run over a list: the first error ends the loop.\<close>

fun foldE :: "('a \<Rightarrow> 's \<Rightarrow> error + 's) \<Rightarrow> 'a list \<Rightarrow> 's \<Rightarrow> error + 's" where
  "foldE f [] st = Inr st"
| "foldE f (x # xs) st = (case f x st of Inl e \<Rightarrow> Inl e | Inr st1 \<Rightarrow> foldE f xs st1)"

fun mapE :: "('a \<Rightarrow> error + 'b) \<Rightarrow> 'a list \<Rightarrow> error + 'b list" where
  "mapE f [] = Inr []"
| "mapE f (x # xs) =
     (case f x of
        Inl e \<Rightarrow> Inl e
      | Inr y \<Rightarrow> (case mapE f xs of Inl e \<Rightarrow> Inl e | Inr ys \<Rightarrow> Inr (y # ys)))"

text \<open>The object \<^verbatim>\<open>payoffMatrix\<close> local to \<^verbatim>\<open>runRoundRobin\<close>, from a strategy name to a row
  from names to scores: a cell is absent, \<^verbatim>\<open>null\<close> (\<open>Some None\<close>) or a score. Writing a
  cell of a row that is absent is a \<^verbatim>\<open>TypeError\<close>.\<close>

type_synonym scoreRow = "string \<rightharpoonup> real option"
type_synonym scoreMatrix = "string \<rightharpoonup> scoreRow"

definition initMatrix :: "string list \<Rightarrow> scoreMatrix" where
  "initMatrix names =
     foldl (\<lambda>m name1. m(name1 \<mapsto> foldl (\<lambda>row name2. row(name2 \<mapsto> None)) Map.empty names))
       Map.empty names"

definition setCell :: "scoreMatrix \<Rightarrow> string \<Rightarrow> string \<Rightarrow> real \<Rightarrow> error + scoreMatrix" where
  "setCell m name1 name2 v =
     (case m name1 of
        None \<Rightarrow> Inl TypeError
      | Some row \<Rightarrow> Inr (m(name1 \<mapsto> row(name2 \<mapsto> Some v))))"

text \<open>The state of the two match loops: \<^verbatim>\<open>matchResults\<close>, the score matrix, the world.\<close>

type_synonym loopState = "MatchResult list \<times> scoreMatrix \<times> world"

definition pairBody ::
  "Tournament \<Rightarrow> string list \<Rightarrow> nat \<Rightarrow> nat \<Rightarrow> loopState \<Rightarrow> error + loopState" where
  "pairBody t strategyCodes i j st =
     (case st of (matchResults, pm, w) \<Rightarrow>
        (case playMatch t (strategyCodes ! i) (strategyCodes ! j) w of
           Inl e \<Rightarrow> Inl e
         | Inr (result, w1) \<Rightarrow>
             (case setCell pm (strategy1Name result) (strategy2Name result)
                     (finalScore1 result) of
                Inl e \<Rightarrow> Inl e
              | Inr pm1 \<Rightarrow>
                  (case setCell pm1 (strategy2Name result) (strategy1Name result)
                          (finalScore2 result) of
                     Inl e \<Rightarrow> Inl e
                   | Inr pm2 \<Rightarrow> Inr (matchResults @ [result], pm2, w1)))))"

text \<open>The body of the self-play loop: the result goes to the diagonal of the matrix only;
  nothing is pushed to \<^verbatim>\<open>matchResults\<close>.\<close>

definition selfBody ::
  "Tournament \<Rightarrow> string list \<Rightarrow> nat \<Rightarrow> loopState \<Rightarrow> error + loopState" where
  "selfBody t strategyCodes i st =
     (case st of (matchResults, pm, w) \<Rightarrow>
        (case playMatch t (strategyCodes ! i) (strategyCodes ! i) w of
           Inl e \<Rightarrow> Inl e
         | Inr (result, w1) \<Rightarrow>
             (case setCell pm (strategy1Name result) (strategy1Name result)
                     (finalScore1 result) of
                Inl e \<Rightarrow> Inl e
              | Inr pm1 \<Rightarrow> Inr (matchResults, pm1, w1))))"

text \<open>\<^verbatim>\<open>for (i = 0; i < n; i++) for (j = i + 1; j < n; j++)\<close> and
  \<^verbatim>\<open>for (i = 0; i < n; i++)\<close>, every index within \<open>strategyCodes\<close>.\<close>

definition pairLoop :: "Tournament \<Rightarrow> string list \<Rightarrow> loopState \<Rightarrow> error + loopState" where
  "pairLoop t strategyCodes =
     foldE (\<lambda>i. foldE (\<lambda>j. pairBody t strategyCodes i j) [i + 1 ..< length strategyCodes])
       [0 ..< length strategyCodes]"

definition selfLoop :: "Tournament \<Rightarrow> string list \<Rightarrow> loopState \<Rightarrow> error + loopState" where
  "selfLoop t strategyCodes =
     foldE (\<lambda>i. selfBody t strategyCodes i) [0 ..< length strategyCodes]"

text \<open>An entry of \<^verbatim>\<open>aggregated\<close>. \<^verbatim>\<open>averageScore\<close> is absent until the averages are
  computed. A division by zero has no real number as its result in JavaScript (\<^verbatim>\<open>NaN\<close> or
  an infinity): \<open>None\<close>.\<close>

record aggregatedStats =
  totalScore :: real
  gamesPlayed :: nat
  cooperationRate :: "real option"
  cooperationCount :: real
  averageScore :: "real option"

type_synonym aggregated = "string \<rightharpoonup> aggregatedStats"

definition divide_js :: "real \<Rightarrow> nat \<Rightarrow> real option" where
  "divide_js x n = (if n = 0 then None else Some (x / real n))"

definition initAggregated :: "params \<Rightarrow> string list \<Rightarrow> error + aggregated" where
  "initAggregated ps strategyCodes =
     foldE (\<lambda>code agg.
              case createStrategy code ps of
                Inl e \<Rightarrow> Inl e
              | Inr s \<Rightarrow>
                  Inr (agg(name s \<mapsto>
                        \<lparr>totalScore = 0, gamesPlayed = 0, cooperationRate = Some 0,
                         cooperationCount = 0, averageScore = None\<rparr>)))
       strategyCodes Map.empty"

definition addResult :: "aggregated \<Rightarrow> string \<Rightarrow> real \<Rightarrow> real \<Rightarrow> error + aggregated" where
  "addResult agg n sc rate =
     (case agg n of
        None \<Rightarrow> Inl TypeError
      | Some d \<Rightarrow>
          Inr (agg(n \<mapsto> d\<lparr>totalScore := totalScore d + sc,
                           gamesPlayed := gamesPlayed d + 1,
                           cooperationCount := cooperationCount d + rate\<rparr>)))"

definition aggregateResult :: "MatchResult \<Rightarrow> aggregated \<Rightarrow> error + aggregated" where
  "aggregateResult result agg =
     (case addResult agg (strategy1Name result) (finalScore1 result)
             (cooperationRate1 result) of
        Inl e \<Rightarrow> Inl e
      | Inr agg1 \<Rightarrow>
          addResult agg1 (strategy2Name result) (finalScore2 result)
            (cooperationRate2 result))"

definition averages :: "aggregated \<Rightarrow> aggregated" where
  "averages agg =
     (\<lambda>strategyName.
        map_option
          (\<lambda>d. d\<lparr>averageScore := divide_js (totalScore d) (gamesPlayed d),
                  cooperationRate := divide_js (cooperationCount d) (gamesPlayed d)\<rparr>)
          (agg strategyName))"

text \<open>The object returned by \<^verbatim>\<open>runRoundRobin\<close>; its field \<^verbatim>\<open>payoffMatrix\<close> is
  \<open>scoreMatrix\<close> here.\<close>

record roundRobinResult =
  matchResults :: "MatchResult list"
  aggregated :: aggregated
  scoreMatrix :: scoreMatrix
  strategyNames :: "string list"

definition runRoundRobin ::
  "Tournament \<Rightarrow> world \<Rightarrow> error + (roundRobinResult \<times> Tournament \<times> world)" where
  "runRoundRobin t w =
     (let strategyCodes = getAllStrategyCodes in
      case mapE (\<lambda>code. map_sum id name (createStrategy code (strategyParams t)))
             strategyCodes of
        Inl e \<Rightarrow> Inl e
      | Inr names \<Rightarrow>
          (case pairLoop t strategyCodes ([], initMatrix names, w) of
             Inl e \<Rightarrow> Inl e
           | Inr st1 \<Rightarrow>
               (case selfLoop t strategyCodes st1 of
                  Inl e \<Rightarrow> Inl e
                | Inr (mrs, pm, w2) \<Rightarrow>
                    (case initAggregated (strategyParams t) strategyCodes of
                       Inl e \<Rightarrow> Inl e
                     | Inr agg0 \<Rightarrow>
                         (case foldE aggregateResult mrs agg0 of
                            Inl e \<Rightarrow> Inl e
                          | Inr agg1 \<Rightarrow>
                              Inr (\<lparr>matchResults = mrs, aggregated = averages agg1,
                                    scoreMatrix = pm, strategyNames = names\<rparr>,
                                   t\<lparr>results := mrs\<rparr>, w2))))))"

subsection \<open>Notions used in the statements and proofs\<close>

text \<open>The source after \<open>k\<close> draws, and the value of the draw that follows them.\<close>

definition skip :: "nat \<Rightarrow> SeededRandom \<Rightarrow> SeededRandom" where
  "skip k g = snd (draws k g)"

definition drawNo :: "nat \<Rightarrow> SeededRandom \<Rightarrow> real" where
  "drawNo k g = fst (random_sr (skip k g))"



text \<open>A strategy object of one of the five subclasses, that is, anything but an instance of
  the base class.\<close>

definition concrete :: "strategy \<Rightarrow> bool" where
  "concrete s = (variant s \<noteq> Strategy)"

text \<open>The state of a game between two rounds: what the strategies have recorded is what
  the round history holds.\<close>

definition coherent :: "Game \<Rightarrow> bool" where
  "coherent g =
     (concrete (strategy1 g) \<and> concrete (strategy2 g) \<and>
      history (strategy1 g) = map move1 (roundHistory g) \<and>
      opponentHistory (strategy1 g) = map move2 (roundHistory g) \<and>
      history (strategy2 g) = map move2 (roundHistory g) \<and>
      opponentHistory (strategy2 g) = map move1 (roundHistory g) \<and>
      score (strategy1 g) = sum_list (map payoff1 (roundHistory g)) \<and>
      score (strategy2 g) = sum_list (map payoff2 (roundHistory g)) \<and>
      map round_no (roundHistory g) = [1 ..< Suc (length (roundHistory g))])"






text \<open>The draws that the strategies themselves make in a match. \<open>forgivenessDraws\<close> is
  the number of draws a strategy has made over the rounds in which its opponent played
  \<open>theirs\<close>: none unless it is a GTFT strategy, which draws once in every round that
  follows a \<open>DEFECT\<close> of the opponent. \<open>strategyDraws\<close> adds up both strategies over
  the rounds \<open>rs\<close>.\<close>

definition isGTFT :: "strategy \<Rightarrow> bool" where
  "isGTFT s = (case variant s of GenerousTitForTat f \<Rightarrow> True | _ \<Rightarrow> False)"

definition forgivenessDraws :: "bool \<Rightarrow> action list \<Rightarrow> nat" where
  "forgivenessDraws gtft theirs =
     (if gtft then length (filter (\<lambda>m. m = DEFECT) (butlast theirs)) else 0)"

definition strategyDraws :: "bool \<Rightarrow> bool \<Rightarrow> roundRecord list \<Rightarrow> nat" where
  "strategyDraws gtft1 gtft2 rs =
     forgivenessDraws gtft1 (map move2 rs) + forgivenessDraws gtft2 (map move1 rs)"

text \<open>The number of draws made in a match before the continuation draw that follows round
  \<open>k\<close> (counted from 1): the \<open>k - 1\<close> continuation draws before it and the draws of the
  strategies in the rounds 1 to \<open>k\<close>.\<close>

definition drawsBefore :: "bool \<Rightarrow> bool \<Rightarrow> roundRecord list \<Rightarrow> nat \<Rightarrow> nat" where
  "drawsBefore gtft1 gtft2 rs k = (k - 1) + strategyDraws gtft1 gtft2 (take k rs)"

text \<open>The display names of the five strategies, in the order of the strategy codes; the
  two names of a match; the final score of the strategy named \<open>n\<close> in a match, and the
  number of seats it takes there.\<close>

definition displayNames :: "string list" where
  "displayNames =
     [''Always Cooperate (ALL-C)'', ''Always Defect (ALL-D)'', ''Tit-for-Tat (TFT)'',
      ''Grim Trigger'', ''Generous TFT'']"

definition pairNames :: "MatchResult \<Rightarrow> string \<times> string" where
  "pairNames r = (strategy1Name r, strategy2Name r)"

definition scoreOf :: "string \<Rightarrow> MatchResult \<Rightarrow> real" where
  "scoreOf n r =
     (if strategy1Name r = n then finalScore1 r else 0) +
     (if strategy2Name r = n then finalScore2 r else 0)"

definition gamesOf :: "string \<Rightarrow> MatchResult \<Rightarrow> nat" where
  "gamesOf n r =
     (if strategy1Name r = n then 1 else 0) + (if strategy2Name r = n then 1 else 0)"

text \<open>For the two match loops: every strategy name has its row in the score matrix; the
  names of the matches pushed so far.\<close>

definition rowsPresent :: "loopState \<Rightarrow> bool" where
  "rowsPresent st = (case st of (mrs, pm, w) \<Rightarrow> set displayNames \<subseteq> dom pm)"

definition namesPlayed :: "loopState \<Rightarrow> (string \<times> string) list" where
  "namesPlayed st = (case st of (mrs, pm, w) \<Rightarrow> map pairNames mrs)"

text \<open>The entry of \<open>aggregated\<close> before any match is added.\<close>

definition zeroStats :: aggregatedStats where
  "zeroStats = \<lparr>totalScore = 0, gamesPlayed = 0, cooperationRate = Some 0,
                cooperationCount = 0, averageScore = None\<rparr>"

section \<open>Properties\<close>

declare fixedLoop.simps [simp del] whileLoop.simps [simp del]

subsection \<open>The random source\<close>

lemma random_sr_range: "0 \<le> fst (random_sr g) \<and> fst (random_sr g) < 1"
proof -
  have b: "0 \<le> real_of_int (uint x) / 4294967296 \<and> real_of_int (uint x) / 4294967296 < 1"
    for x :: "32 word"
  proof -
    have "uint x < 4294967296" using uint_bounded [of x] by simp
    then have "real_of_int (uint x) < real_of_int 4294967296"
      by (simp only: of_int_less_iff)
    moreover have "real_of_int 0 \<le> real_of_int (uint x)"
      by (simp only: of_int_le_iff uint_ge_0)
    ultimately show ?thesis by simp
  qed
  obtain x :: "32 word" where eq: "fst (random_sr g) = real_of_int (uint x) / 4294967296"
    by (simp add: random_sr_def Let_def)
  show ?thesis unfolding eq by (rule b)
qed

lemma draws_range: "v \<in> set (fst (draws n g)) \<Longrightarrow> 0 \<le> v \<and> v < 1"
proof (induction n arbitrary: g)
  case 0
  then show ?case by simp
next
  case (Suc n)
  then show ?case using random_sr_range [of g]
    by (auto simp: split_beta Let_def)
qed

lemma reset_sr_same: "reset_sr g1 s = reset_sr g2 s"
  by (cases g1, cases g2) (simp add: reset_sr_def)

lemma skip_simps [simp]:
  "skip 0 g = g"
  "skip (Suc k) g = skip k (snd (random_sr g))"
  by (simp_all add: skip_def split_beta Let_def)

lemma skip_Suc_right: "skip (Suc k) g = snd (random_sr (skip k g))"
  by (induction k arbitrary: g) simp_all

lemma skip_add: "skip (j + k) g = skip k (skip j g)"
  by (induction j arbitrary: g) simp_all

text \<open>
  Claim C4. Two random sources reset to the same seed give the same values, and leave the
  same state, for every number of draws; every value drawn lies in \<open>[0, 1)\<close>; the seed 0
  gets no treatment of its own: its first draw is the value of the mixing function, not 0.
\<close>

theorem draws_deterministic:
  "draws n (reset_sr g1 s) = draws n (reset_sr g2 s) \<and>
   (\<forall>v \<in> set (fst (draws n (reset_sr g1 s))). 0 \<le> v \<and> v < 1) \<and>
   fst (random_sr (reset_sr g1 0)) = 572152369 / 2147483648"
proof -
  have "fst (random_sr (reset_sr g1 0)) = 572152369 / 2147483648"
    by (simp add: reset_sr_def random_sr_def imul_def Let_def)
  then show ?thesis
    using draws_range reset_sr_same [of g1 s g2] by auto
qed

theorem draws_deterministic_witness:
  "645430239 / 1073741824 \<in> set (fst (draws 2 (reset_sr \<lparr>seed = 7\<rparr> 42))) \<and>
   draws 2 (reset_sr \<lparr>seed = 7\<rparr> 42) = draws 2 (reset_sr \<lparr>seed = 9\<rparr> 42) \<and>
   (0::real) \<le> 645430239 / 1073741824 \<and> (645430239 / 1073741824 :: real) < 1"
proof -
  have e: "draws 2 (reset_sr \<lparr>seed = 7\<rparr> 42) =
      ([645430239 / 1073741824, 962696645 / 2147483648], \<lparr>seed = 3663131668\<rparr>)"
    by code_simp
  have e': "draws 2 (reset_sr \<lparr>seed = 9\<rparr> 42) =
      ([645430239 / 1073741824, 962696645 / 2147483648], \<lparr>seed = 3663131668\<rparr>)"
    by code_simp
  show ?thesis
    using draws_deterministic [of 2 "\<lparr>seed = 7\<rparr>" 42 "\<lparr>seed = 9\<rparr>"]
    unfolding e e' by simp
qed

subsection \<open>The payoff matrix\<close>

text \<open>
  Claim C5. For every payoff matrix, whatever its four numbers, \<open>getPayoff\<close> returns
  \<open>(R, R)\<close> when both cooperate, \<open>(S, T)\<close> when the first cooperates and the second
  defects, \<open>(T, S)\<close> when the first defects and the second cooperates, \<open>(P, P)\<close> when
  both defect; with \<open>T = 5, R = 3, P = 1, S = 0\<close> that is \<open>(0, 5)\<close> for cooperate against
  defect and \<open>(1, 1)\<close> for mutual defection.
\<close>

theorem getPayoff_cases:
  "getPayoff m COOPERATE COOPERATE = (R m, R m) \<and>
   getPayoff m COOPERATE DEFECT = (S m, T m) \<and>
   getPayoff m DEFECT COOPERATE = (T m, S m) \<and>
   getPayoff m DEFECT DEFECT = (P m, P m) \<and>
   getPayoff \<lparr>T = 5, R = 3, P = 1, S = 0\<rparr> COOPERATE DEFECT = (0, 5) \<and>
   getPayoff \<lparr>T = 5, R = 3, P = 1, S = 0\<rparr> DEFECT DEFECT = (1, 1)"
  by (simp add: getPayoff_def)

subsection \<open>The factory\<close>

text \<open>
  Claim C9. \<open>createStrategy\<close> succeeds for the codes ALLC, ALLD, TFT, GRIM and GTFT, with
  the strategy of that class under its display name, and for every other code it fails
  with the error \<open>Unknown strategy: <code>\<close>.
\<close>

theorem createStrategy_codes:
  "createStrategy ''ALLC'' ps = Inr newAlwaysCooperate \<and>
   createStrategy ''ALLD'' ps = Inr newAlwaysDefect \<and>
   createStrategy ''TFT'' ps = Inr newTitForTat \<and>
   createStrategy ''GRIM'' ps = Inr newGrimTrigger \<and>
   createStrategy ''GTFT'' ps =
     Inr (newGenerousTitForTat (Some (case forgiveness ps of Some v \<Rightarrow> v | None \<Rightarrow> 0.1))) \<and>
   newAlwaysCooperate = newStrategy ''Always Cooperate (ALL-C)'' AlwaysCooperate \<and>
   newAlwaysDefect = newStrategy ''Always Defect (ALL-D)'' AlwaysDefect \<and>
   newTitForTat = newStrategy ''Tit-for-Tat (TFT)'' TitForTat \<and>
   newGrimTrigger = newStrategy ''Grim Trigger'' (GrimTrigger False) \<and>
   newGenerousTitForTat (Some f) = newStrategy ''Generous TFT'' (GenerousTitForTat f) \<and>
   name (newStrategy n v) = n \<and>
   (c \<notin> set getAllStrategyCodes \<longrightarrow>
      createStrategy c ps = Inl (Error (''Unknown strategy: '' @ c)))"
  by (simp add: createStrategy_def getAllStrategyCodes_def newAlwaysCooperate_def
      newAlwaysDefect_def newTitForTat_def newGrimTrigger_def newGenerousTitForTat_def
      newStrategy_def Let_def)

theorem createStrategy_codes_witness:
  "''FOO'' \<notin> set getAllStrategyCodes \<and>
   createStrategy ''FOO'' \<lparr>forgiveness = None\<rparr> = Inl (Error ''Unknown strategy: FOO'')"
  using createStrategy_codes [of "\<lparr>forgiveness = None\<rparr>" 0 "''x''" AlwaysCooperate "''FOO''"]
  by (simp add: getAllStrategyCodes_def)

text \<open>
  Claim C10. Created by the factory from a parameter object without a forgiveness entry,
  a GTFT strategy has the forgiveness probability 0.1: the creation does not fail.
\<close>

theorem createStrategy_GTFT_default:
  "createStrategy ''GTFT'' \<lparr>forgiveness = None\<rparr> =
     Inr (newStrategy ''Generous TFT'' (GenerousTitForTat 0.1))"
  by (simp add: createStrategy_def newGenerousTitForTat_def)


subsection \<open>Decisions\<close>

lemma makeMove_GTFT:
  assumes "variant s = GenerousTitForTat f"
  shows "makeMove s w =
     Inr (if opponentHistory s = [] \<or> last (opponentHistory s) = COOPERATE
             \<or> fst (random_sr (globalRandom w)) < f
          then COOPERATE else DEFECT,
          s,
          if opponentHistory s \<noteq> [] \<and> last (opponentHistory s) = DEFECT
          then w\<lparr>globalRandom := snd (random_sr (globalRandom w))\<rparr> else w)"
  using assms
  by (cases "last (opponentHistory s)") (simp_all add: makeMove_def split_beta Let_def)








subsection \<open>Rounds and loops\<close>

lemma makeMove_concrete:
  assumes "concrete s"
  shows "\<exists>a s' w'. makeMove s w = Inr (a, s', w')"
  using assms
  by (cases "variant s") (simp_all add: concrete_def makeMove_def split_beta Let_def)

lemma makeMove_frame:
  assumes "makeMove s w = Inr (a, s', w')"
  shows "name s' = name s \<and> history s' = history s \<and>
         opponentHistory s' = opponentHistory s \<and> score s' = score s \<and>
         console w' = console w \<and> (concrete s \<longrightarrow> concrete s')"
  using assms
  by (cases "variant s")
    (auto simp: concrete_def makeMove_def split_beta Let_def split: if_splits)

lemma playRound_concrete:
  assumes "concrete (strategy1 g)" and "concrete (strategy2 g)"
  obtains m1 s1 w1 m2 s2 w2 where
    "makeMove (strategy1 g) w = Inr (m1, s1, w1)"
    "makeMove (strategy2 g) w1 = Inr (m2, s2, w2)"
    "playRound g w =
       Inr (g\<lparr>strategy1 := updateScore (recordMove s1 m1 m2) (fst (getPayoff (payoffMatrix g) m1 m2)),
              strategy2 := updateScore (recordMove s2 m2 m1) (snd (getPayoff (payoffMatrix g) m1 m2)),
              roundHistory := roundHistory g @
                [\<lparr>round_no = length (roundHistory g) + 1, move1 = m1, move2 = m2,
                  payoff1 = fst (getPayoff (payoffMatrix g) m1 m2),
                  payoff2 = snd (getPayoff (payoffMatrix g) m1 m2),
                  cumScore1 = score s1 + fst (getPayoff (payoffMatrix g) m1 m2),
                  cumScore2 = score s2 + snd (getPayoff (payoffMatrix g) m1 m2)\<rparr>]\<rparr>,
            w2)"
proof -
  obtain m1 s1 w1 where 1: "makeMove (strategy1 g) w = Inr (m1, s1, w1)"
    using makeMove_concrete [OF assms(1)] by blast
  obtain m2 s2 w2 where 2: "makeMove (strategy2 g) w1 = Inr (m2, s2, w2)"
    using makeMove_concrete [OF assms(2)] by blast
  show thesis
    by (rule that [OF 1 2])
      (simp add: playRound_def 1 2 split_beta Let_def updateScore_def recordMove_def)
qed

lemma playRound_coherent:
  assumes "coherent g"
  shows "\<exists>g' w'. playRound g w = Inr (g', w') \<and> coherent g' \<and>
           length (roundHistory g') = Suc (length (roundHistory g)) \<and>
           payoffMatrix g' = payoffMatrix g \<and> numRounds g' = numRounds g \<and>
           continuationProb g' = continuationProb g \<and>
           name (strategy1 g') = name (strategy1 g) \<and>
           name (strategy2 g') = name (strategy2 g) \<and> console w' = console w"
proof -
  from assms have c: "concrete (strategy1 g)" "concrete (strategy2 g)"
    by (simp_all add: coherent_def)
  from playRound_concrete [OF c, of w]
  obtain m1 s1 w1 m2 s2 w2 where
    1: "makeMove (strategy1 g) w = Inr (m1, s1, w1)" and
    2: "makeMove (strategy2 g) w1 = Inr (m2, s2, w2)" and
    3: "playRound g w =
       Inr (g\<lparr>strategy1 := updateScore (recordMove s1 m1 m2) (fst (getPayoff (payoffMatrix g) m1 m2)),
              strategy2 := updateScore (recordMove s2 m2 m1) (snd (getPayoff (payoffMatrix g) m1 m2)),
              roundHistory := roundHistory g @
                [\<lparr>round_no = length (roundHistory g) + 1, move1 = m1, move2 = m2,
                  payoff1 = fst (getPayoff (payoffMatrix g) m1 m2),
                  payoff2 = snd (getPayoff (payoffMatrix g) m1 m2),
                  cumScore1 = score s1 + fst (getPayoff (payoffMatrix g) m1 m2),
                  cumScore2 = score s2 + snd (getPayoff (payoffMatrix g) m1 m2)\<rparr>]\<rparr>,
            w2)"
    by blast
  note f1 = makeMove_frame [OF 1] and f2 = makeMove_frame [OF 2]
  show ?thesis
    unfolding 3 using assms f1 f2 c
    by (simp add: coherent_def updateScore_def recordMove_def concrete_def)
qed

lemma startMatch_coherent:
  assumes "concrete (strategy1 g)" and "concrete (strategy2 g)"
  shows "coherent (startMatch g)"
  using assms
  by (auto simp: coherent_def startMatch_def reset_def concrete_def split: variant.splits)


lemma fixedLoop_rule:
  assumes "Inv g"
    and step: "\<And>g w g' w'. Inv g \<Longrightarrow> playRound g w = Inr (g', w') \<Longrightarrow> Inv g'"
    and coh: "\<And>g. Inv g \<Longrightarrow> coherent g"
  shows "\<exists>g' w'. fixedLoop i n g w = Inr (g', w') \<and> Inv g' \<and>
           length (roundHistory g') = length (roundHistory g) + nat (n - i)"
  using assms(1)
proof (induction i n g w rule: fixedLoop.induct)
  case (1 i n g w)
  show ?case
  proof (cases "i < n")
    case False
    with "1.prems" show ?thesis by (subst fixedLoop.simps) simp
  next
    case True
    from playRound_coherent [OF coh [OF "1.prems"], of w]
    obtain g1 w1 where pr: "playRound g w = Inr (g1, w1)"
      and len: "length (roundHistory g1) = Suc (length (roundHistory g))"
      by blast
    have inv1: "Inv g1" by (rule step [OF "1.prems" pr])
    from "1.IH" [OF True pr refl inv1]
    obtain g' w' where r: "fixedLoop (i + 1) n g1 w1 = Inr (g', w')" "Inv g'"
      "length (roundHistory g') = length (roundHistory g1) + nat (n - (i + 1))"
      by blast
    have "fixedLoop i n g w = Inr (g', w')"
      using True pr r(1) by (subst fixedLoop.simps) simp
    moreover have "length (roundHistory g') = length (roundHistory g) + nat (n - i)"
      using r(3) len True by simp
    ultimately show ?thesis using r(2) by blast
  qed
qed

lemma whileLoop_rule:
  assumes "Inv g"
    and step: "\<And>g w g' w'. Inv g \<Longrightarrow> playRound g w = Inr (g', w') \<Longrightarrow> Inv g'"
    and coh: "\<And>g. Inv g \<Longrightarrow> coherent g"
  shows "\<exists>g' w' c'. whileLoop p c g w = Inr (g', w', c') \<and> Inv g' \<and> c \<le> c' \<and>
           (c \<le> maxRounds \<longrightarrow> c' \<le> maxRounds) \<and>
           length (roundHistory g') = length (roundHistory g) + (c' - c)"
  using assms(1)
proof (induction p c g w rule: whileLoop.induct)
  case (1 p c g w)
  let ?d = "fst (random_sr (globalRandom w))"
  let ?w1 = "w\<lparr>globalRandom := snd (random_sr (globalRandom w))\<rparr>"
  show ?case
  proof (cases "?d < p \<and> c < maxRounds")
    case False
    then have "whileLoop p c g w = Inr (g, ?w1, c)"
      by (subst whileLoop.simps) (auto simp: split_beta Let_def)
    with "1.prems" show ?thesis by simp
  next
    case True
    from playRound_coherent [OF coh [OF "1.prems"], of ?w1]
    obtain g1 w2 where pr: "playRound g ?w1 = Inr (g1, w2)"
      and len: "length (roundHistory g1) = Suc (length (roundHistory g))"
      by blast
    have inv1: "Inv g1" by (rule step [OF "1.prems" pr])
    from "1.IH" [OF refl prod.collapse refl True pr refl inv1]
    obtain g' w' c' where r: "whileLoop p (c + 1) g1 w2 = Inr (g', w', c')" "Inv g'"
      "c + 1 \<le> c'" "c + 1 \<le> maxRounds \<longrightarrow> c' \<le> maxRounds"
      "length (roundHistory g') = length (roundHistory g1) + (c' - (c + 1))"
      by blast
    have "whileLoop p c g w = Inr (g', w', c')"
      using True pr r(1) by (subst whileLoop.simps) (simp add: split_beta Let_def)
    moreover have "length (roundHistory g') = length (roundHistory g) + (c' - c)"
      using r(3,5) len by simp
    moreover have "c \<le> c'" "c \<le> maxRounds \<longrightarrow> c' \<le> maxRounds"
      using r(3,4) True by simp_all
    ultimately show ?thesis using r(2) by blast
  qed
qed

lemma startMatch_fields:
  "continuationProb (startMatch g) = continuationProb g"
  "numRounds (startMatch g) = numRounds g"
  "payoffMatrix (startMatch g) = payoffMatrix g"
  "roundHistory (startMatch g) = []"
  "name (strategy1 (startMatch g)) = name (strategy1 g)"
  "name (strategy2 (startMatch g)) = name (strategy2 g)"
  by (simp_all add: startMatch_def reset_def)

lemma play_rule:
  assumes init: "Inv (startMatch g)"
    and step: "\<And>g w g' w'. Inv g \<Longrightarrow> playRound g w = Inr (g', w') \<Longrightarrow> Inv g'"
    and coh: "\<And>g. Inv g \<Longrightarrow> coherent g"
  shows "\<exists>g' w'. play g w = Inr (matchResult g', g', w') \<and> Inv g' \<and>
           (case continuationProb g of
              None \<Rightarrow> length (roundHistory g') = nat (numRounds g)
            | Some p \<Rightarrow> 1 \<le> length (roundHistory g') \<and> length (roundHistory g') \<le> maxRounds)"
proof (cases "continuationProb g")
  case None
  have "\<exists>g' w'. fixedLoop 0 (numRounds g) (startMatch g) w = Inr (g', w') \<and> Inv g' \<and>
           length (roundHistory g') =
             length (roundHistory (startMatch g)) + nat (numRounds g - 0)"
  proof (rule fixedLoop_rule [where Inv = Inv])
    show "Inv (startMatch g)" by (rule init)
    show "\<And>g w g' w'. Inv g \<Longrightarrow> playRound g w = Inr (g', w') \<Longrightarrow> Inv g'" by (rule step)
    show "\<And>g. Inv g \<Longrightarrow> coherent g" by (rule coh)
  qed
  then obtain g' w' where r: "fixedLoop 0 (numRounds g) (startMatch g) w = Inr (g', w')" "Inv g'"
    "length (roundHistory g') = length (roundHistory (startMatch g)) + nat (numRounds g - 0)"
    by blast
  have "play g w = Inr (matchResult g', g', w')"
    using None r(1) by (simp add: play_def startMatch_fields)
  with r(2,3) None show ?thesis by (simp add: startMatch_fields)
next
  case (Some p)
  from playRound_coherent [OF coh [OF init], of w]
  obtain g1 w1 where pr: "playRound (startMatch g) w = Inr (g1, w1)"
    and len: "length (roundHistory g1) = Suc (length (roundHistory (startMatch g)))"
    by blast
  have inv1: "Inv g1" by (rule step [OF init pr])
  have "\<exists>g' w' c'. whileLoop p 1 g1 w1 = Inr (g', w', c') \<and> Inv g' \<and> 1 \<le> c' \<and>
           (1 \<le> maxRounds \<longrightarrow> c' \<le> maxRounds) \<and>
           length (roundHistory g') = length (roundHistory g1) + (c' - 1)"
  proof (rule whileLoop_rule [where Inv = Inv])
    show "Inv g1" by (rule inv1)
    show "\<And>g w g' w'. Inv g \<Longrightarrow> playRound g w = Inr (g', w') \<Longrightarrow> Inv g'" by (rule step)
    show "\<And>g. Inv g \<Longrightarrow> coherent g" by (rule coh)
  qed
  then obtain g' w' c' where r: "whileLoop p 1 g1 w1 = Inr (g', w', c')" "Inv g'" "1 \<le> c'"
    "1 \<le> maxRounds \<longrightarrow> c' \<le> maxRounds"
    "length (roundHistory g') = length (roundHistory g1) + (c' - 1)"
    by blast
  let ?w = "if c' \<ge> maxRounds then
              w'\<lparr>console := console w' @ [''Game reached maximum round limit of 10000 rounds'']\<rparr>
            else w'"
  have "play g w = Inr (matchResult g', g', ?w)"
    using Some pr r(1) by (simp add: play_def startMatch_fields)
  moreover have "length (roundHistory g') = c'"
    using r(3,5) len by (simp add: startMatch_fields)
  moreover have "c' \<le> maxRounds" using r(4) by (simp add: maxRounds_def)
  ultimately show ?thesis using r(2,3) Some by auto
qed


subsection \<open>Fixed-length matches\<close>

lemma playRound_coherent_eq:
  assumes "coherent g" and "playRound g w = Inr (g', w')"
  shows "coherent g' \<and> length (roundHistory g') = Suc (length (roundHistory g)) \<and>
         payoffMatrix g' = payoffMatrix g \<and>
         name (strategy1 g') = name (strategy1 g) \<and>
         name (strategy2 g') = name (strategy2 g) \<and> console w' = console w"
  using playRound_coherent [OF assms(1), of w] assms(2) by auto

lemma play_coherent:
  assumes "concrete (strategy1 g)" and "concrete (strategy2 g)"
  shows "\<exists>g' w'. play g w = Inr (matchResult g', g', w') \<and> coherent g' \<and>
           (case continuationProb g of
              None \<Rightarrow> length (roundHistory g') = nat (numRounds g)
            | Some p \<Rightarrow> 1 \<le> length (roundHistory g') \<and> length (roundHistory g') \<le> maxRounds)"
proof (rule play_rule [where Inv = coherent])
  show "coherent (startMatch g)" by (rule startMatch_coherent [OF assms])
  show "\<And>g w g' w'. coherent g \<Longrightarrow> playRound g w = Inr (g', w') \<Longrightarrow> coherent g'"
    using playRound_coherent_eq by blast
  show "\<And>g. coherent g \<Longrightarrow> coherent g" .
qed

text \<open>
  Claim C7. In fixed-length mode a match of two strategies of the five classes runs
  \<open>numRounds\<close> rounds, numbered from 1, for every \<open>numRounds \<ge> 0\<close>; with
  \<open>numRounds = 0\<close> the result has an empty round history, both final scores 0 and both
  cooperation rates 0. The cooperation rate of a strategy that has recorded no move of its
  own is 0.
\<close>

theorem fixed_mode_rounds:
  assumes "continuationProb g = None" and "concrete (strategy1 g)" and "concrete (strategy2 g)"
    and "0 \<le> numRounds g"
  shows "(\<exists>res g' w'. play g w = Inr (res, g', w') \<and>
            int (length (rounds res)) = numRounds g \<and>
            map round_no (rounds res) = [1 ..< Suc (nat (numRounds g))] \<and>
            (numRounds g = 0 \<longrightarrow>
               rounds res = [] \<and> finalScore1 res = 0 \<and> finalScore2 res = 0 \<and>
               cooperationRate1 res = 0 \<and> cooperationRate2 res = 0)) \<and>
         (history s = [] \<longrightarrow> getCooperationRate s = 0)"
proof -
  from play_coherent [OF assms(2,3), of w] assms(1)
  obtain g' w' where p: "play g w = Inr (matchResult g', g', w')" and c: "coherent g'"
    and l: "length (roundHistory g') = nat (numRounds g)"
    by auto
  have 1: "int (length (rounds (matchResult g'))) = numRounds g"
    using l assms(4) by (simp add: matchResult_def)
  have 2: "map round_no (rounds (matchResult g')) = [1 ..< Suc (nat (numRounds g))]"
    using c l by (simp add: matchResult_def coherent_def)
  have 3: "rounds (matchResult g') = [] \<and> finalScore1 (matchResult g') = 0 \<and>
      finalScore2 (matchResult g') = 0 \<and> cooperationRate1 (matchResult g') = 0 \<and>
      cooperationRate2 (matchResult g') = 0" if "numRounds g = 0"
    using c l that by (simp add: matchResult_def coherent_def getCooperationRate_def)
  have 4: "history s = [] \<longrightarrow> getCooperationRate s = 0"
    by (simp add: getCooperationRate_def)
  from p 1 2 3 4 show ?thesis by blast
qed

theorem fixed_mode_rounds_witness:
  "continuationProb (newGame newAlwaysDefect newGrimTrigger \<lparr>T = 5, R = 3, P = 1, S = 0\<rparr> 0 None)
     = None \<and>
   concrete newAlwaysDefect \<and> concrete newGrimTrigger \<and> history newGrimTrigger = [] \<and>
   (\<exists>res g' w'.
      play (newGame newAlwaysDefect newGrimTrigger \<lparr>T = 5, R = 3, P = 1, S = 0\<rparr> 0 None)
        \<lparr>globalRandom = \<lparr>seed = 42\<rparr>, console = []\<rparr> = Inr (res, g', w') \<and>
      rounds res = [] \<and> finalScore1 res = 0 \<and> finalScore2 res = 0 \<and>
      cooperationRate1 res = 0 \<and> cooperationRate2 res = 0) \<and>
   getCooperationRate newGrimTrigger = 0"
proof -
  let ?g = "newGame newAlwaysDefect newGrimTrigger \<lparr>T = 5, R = 3, P = 1, S = 0\<rparr> 0 None"
  have h: "continuationProb ?g = None" "concrete (strategy1 ?g)" "concrete (strategy2 ?g)"
    "0 \<le> numRounds ?g"
    by (simp_all add: newGame_def concrete_def newAlwaysDefect_def newGrimTrigger_def
        newStrategy_def)
  have e: "strategy1 ?g = newAlwaysDefect" "strategy2 ?g = newGrimTrigger" "numRounds ?g = 0"
    "history newGrimTrigger = []"
    by (simp_all add: newGame_def newGrimTrigger_def newStrategy_def)
  show ?thesis
    using fixed_mode_rounds [OF h, of "\<lparr>globalRandom = \<lparr>seed = 42\<rparr>, console = []\<rparr>"
        newGrimTrigger] h
    unfolding e by auto
qed

subsection \<open>Tit-for-Tat against Tit-for-Tat\<close>

lemma last_map_const:
  assumes "xs \<noteq> []" and "\<forall>x \<in> set xs. f x = c"
  shows "last (map f xs) = c"
  using assms by (simp add: last_map)








subsection \<open>Grim Trigger\<close>








subsection \<open>The indefinite horizon\<close>

lemma makeMove_draws:
  assumes "concrete s" and "makeMove s w = Inr (a, s', w')"
  shows "w' = w\<lparr>globalRandom :=
                  skip (if isGTFT s \<and> opponentHistory s \<noteq> [] \<and> last (opponentHistory s) = DEFECT
                        then 1 else 0) (globalRandom w)\<rparr> \<and>
         isGTFT s' = isGTFT s"
proof (cases "variant s")
  case (GenerousTitForTat f)
  then show ?thesis
    using assms(2) by (auto simp: makeMove_GTFT [OF GenerousTitForTat] isGTFT_def)
qed (use assms in \<open>auto simp: makeMove_def concrete_def isGTFT_def split: if_splits\<close>)

lemma count_butlast:
  "length (filter Q xs) =
     length (filter Q (butlast xs)) + (if xs \<noteq> [] \<and> Q (last xs) then 1 else 0)"
  by (induction xs rule: rev_induct) simp_all

lemma forgivenessDraws_snoc:
  "forgivenessDraws t (theirs @ [m]) =
     forgivenessDraws t theirs + (if t \<and> theirs \<noteq> [] \<and> last theirs = DEFECT then 1 else 0)"
  unfolding forgivenessDraws_def butlast_snoc
  using count_butlast [of "\<lambda>m. m = DEFECT" theirs] by simp

lemma playRound_draws:
  assumes "coherent g"
  shows "\<exists>g' w' r.
           playRound g w = Inr (g', w') \<and> coherent g' \<and>
           roundHistory g' = roundHistory g @ [r] \<and>
           isGTFT (strategy1 g') = isGTFT (strategy1 g) \<and>
           isGTFT (strategy2 g') = isGTFT (strategy2 g) \<and>
           (\<exists>j. strategyDraws (isGTFT (strategy1 g)) (isGTFT (strategy2 g)) (roundHistory g')
                  = strategyDraws (isGTFT (strategy1 g)) (isGTFT (strategy2 g)) (roundHistory g) + j \<and>
                w' = w\<lparr>globalRandom := skip j (globalRandom w)\<rparr>)"
proof -
  from assms have c: "concrete (strategy1 g)" "concrete (strategy2 g)"
    and oh: "opponentHistory (strategy1 g) = map move2 (roundHistory g)"
    "opponentHistory (strategy2 g) = map move1 (roundHistory g)"
    by (simp_all add: coherent_def)
  let ?pm = "payoffMatrix g"
  from playRound_concrete [OF c, of w]
  obtain m1 s1 w1 m2 s2 w2 where
    1: "makeMove (strategy1 g) w = Inr (m1, s1, w1)" and
    2: "makeMove (strategy2 g) w1 = Inr (m2, s2, w2)" and
    3: "playRound g w =
       Inr (g\<lparr>strategy1 := updateScore (recordMove s1 m1 m2) (fst (getPayoff ?pm m1 m2)),
              strategy2 := updateScore (recordMove s2 m2 m1) (snd (getPayoff ?pm m1 m2)),
              roundHistory := roundHistory g @
                [\<lparr>round_no = length (roundHistory g) + 1, move1 = m1, move2 = m2,
                  payoff1 = fst (getPayoff ?pm m1 m2),
                  payoff2 = snd (getPayoff ?pm m1 m2),
                  cumScore1 = score s1 + fst (getPayoff ?pm m1 m2),
                  cumScore2 = score s2 + snd (getPayoff ?pm m1 m2)\<rparr>]\<rparr>,
            w2)"
      (is "_ = Inr (?g', _)")
    by blast
  let ?r = "\<lparr>round_no = length (roundHistory g) + 1, move1 = m1, move2 = m2,
                  payoff1 = fst (getPayoff ?pm m1 m2),
                  payoff2 = snd (getPayoff ?pm m1 m2),
                  cumScore1 = score s1 + fst (getPayoff ?pm m1 m2),
                  cumScore2 = score s2 + snd (getPayoff ?pm m1 m2)\<rparr>"
  let ?j1 = "if isGTFT (strategy1 g) \<and> map move2 (roundHistory g) \<noteq> [] \<and>
                last (map move2 (roundHistory g)) = DEFECT then 1 else 0 :: nat"
  let ?j2 = "if isGTFT (strategy2 g) \<and> map move1 (roundHistory g) \<noteq> [] \<and>
                last (map move1 (roundHistory g)) = DEFECT then 1 else 0 :: nat"
  from makeMove_draws [OF c(1) 1]
  have d1: "w1 = w\<lparr>globalRandom := skip ?j1 (globalRandom w)\<rparr>" "isGTFT s1 = isGTFT (strategy1 g)"
    unfolding oh by blast+
  from makeMove_draws [OF c(2) 2]
  have d2: "w2 = w1\<lparr>globalRandom := skip ?j2 (globalRandom w1)\<rparr>" "isGTFT s2 = isGTFT (strategy2 g)"
    unfolding oh by blast+
  have w2: "w2 = w\<lparr>globalRandom := skip (?j1 + ?j2) (globalRandom w)\<rparr>"
    unfolding d2(1) d1(1) by (simp add: skip_add)
  have sd: "strategyDraws (isGTFT (strategy1 g)) (isGTFT (strategy2 g)) (roundHistory g @ [?r])
      = strategyDraws (isGTFT (strategy1 g)) (isGTFT (strategy2 g)) (roundHistory g) + (?j1 + ?j2)"
    by (simp add: strategyDraws_def forgivenessDraws_snoc)
  have coh': "coherent ?g'" using playRound_coherent_eq [OF assms 3] by simp
  have "roundHistory ?g' = roundHistory g @ [?r]" by simp
  moreover have "isGTFT (strategy1 ?g') = isGTFT (strategy1 g)"
    "isGTFT (strategy2 ?g') = isGTFT (strategy2 g)"
    using d1(2) d2(2) by (simp_all add: isGTFT_def updateScore_def recordMove_def)
  moreover have "\<exists>j. strategyDraws (isGTFT (strategy1 g)) (isGTFT (strategy2 g)) (roundHistory ?g')
                  = strategyDraws (isGTFT (strategy1 g)) (isGTFT (strategy2 g)) (roundHistory g) + j \<and>
                w2 = w\<lparr>globalRandom := skip j (globalRandom w)\<rparr>"
    using sd w2 by auto
  ultimately show ?thesis using 3 coh' by blast
qed


lemma drawsBefore_length:
  "drawsBefore t1 t2 rs (length rs) = (length rs - 1) + strategyDraws t1 t2 rs"
  by (simp add: drawsBefore_def)

lemma drawsBefore_snoc:
  "k \<le> length rs \<Longrightarrow> drawsBefore t1 t2 (rs @ [r]) k = drawsBefore t1 t2 rs k"
  by (simp add: drawsBefore_def)

lemma whileLoop_draws:
  assumes "coherent g" and "isGTFT (strategy1 g) = t1" and "isGTFT (strategy2 g) = t2"
    and "length (roundHistory g) = c" and "1 \<le> c" and "c \<le> maxRounds"
    and "globalRandom w = skip (drawsBefore t1 t2 (roundHistory g) c) r0"
    and "\<forall>k. 1 \<le> k \<and> k < c \<longrightarrow> drawNo (drawsBefore t1 t2 (roundHistory g) k) r0 < p"
  shows "\<exists>g' w' n. whileLoop p c g w = Inr (g', w', n) \<and> coherent g' \<and>
           length (roundHistory g') = n \<and> c \<le> n \<and> n \<le> maxRounds \<and>
           (\<forall>k. 1 \<le> k \<and> k < n \<longrightarrow> drawNo (drawsBefore t1 t2 (roundHistory g') k) r0 < p) \<and>
           (n < maxRounds \<longrightarrow> \<not> drawNo (drawsBefore t1 t2 (roundHistory g') n) r0 < p) \<and>
           w' = w\<lparr>globalRandom := skip (drawsBefore t1 t2 (roundHistory g') n + 1) r0\<rparr>"
  using assms
proof (induction p c g w rule: whileLoop.induct)
  case (1 p c g w)
  let ?rh = "roundHistory g"
  let ?D = "drawsBefore t1 t2 ?rh c"
  let ?d = "fst (random_sr (globalRandom w))"
  let ?w1 = "w\<lparr>globalRandom := snd (random_sr (globalRandom w))\<rparr>"
  note coh = "1.prems"(1) and t = "1.prems"(2,3) and len = "1.prems"(4)
    and c = "1.prems"(5,6) and rng = "1.prems"(7) and prev = "1.prems"(8)
  have d: "?d = drawNo ?D r0" by (simp add: drawNo_def rng)
  have sk: "snd (random_sr (skip ?D r0)) = skip (?D + 1) r0"
    by (simp only: Suc_eq_plus1 [symmetric] skip_Suc_right)
  have w1: "?w1 = w\<lparr>globalRandom := skip (?D + 1) r0\<rparr>"
    by (simp only: rng sk)
  show ?case
  proof (cases "?d < p \<and> c < maxRounds")
    case False
    have "whileLoop p c g w = Inr (g, ?w1, c)"
      using False by (subst whileLoop.simps) (auto simp: split_beta Let_def)
    moreover have "c < maxRounds \<longrightarrow> \<not> drawNo ?D r0 < p"
      using False d by auto
    ultimately show ?thesis
      using coh len c prev w1 by simp
  next
    case True
    from playRound_draws [OF coh, of ?w1] t
    obtain g1 w2 r j where pr: "playRound g ?w1 = Inr (g1, w2)" and coh1: "coherent g1"
      and rh1: "roundHistory g1 = ?rh @ [r]"
      and t1: "isGTFT (strategy1 g1) = t1" "isGTFT (strategy2 g1) = t2"
      and sd: "strategyDraws t1 t2 (roundHistory g1) = strategyDraws t1 t2 ?rh + j"
      and w2: "w2 = ?w1\<lparr>globalRandom := skip j (globalRandom ?w1)\<rparr>"
      by auto
    have len1: "length (roundHistory g1) = c + 1" using rh1 len by simp
    have D1: "drawsBefore t1 t2 (roundHistory g1) (c + 1) = ?D + 1 + j"
      using drawsBefore_length [of t1 t2 "roundHistory g1"] drawsBefore_length [of t1 t2 ?rh]
        len len1 sd c(1)
      by simp
    have "globalRandom w2 = skip j (skip (?D + 1) r0)"
      unfolding w2 w1 by simp
    then have rng1: "globalRandom w2 = skip (drawsBefore t1 t2 (roundHistory g1) (c + 1)) r0"
      unfolding D1 by (simp only: skip_add)
    have prev1: "\<forall>k. 1 \<le> k \<and> k < c + 1 \<longrightarrow>
        drawNo (drawsBefore t1 t2 (roundHistory g1) k) r0 < p"
    proof (intro allI impI)
      fix k assume k: "1 \<le> k \<and> k < c + 1"
      then have e: "drawsBefore t1 t2 (roundHistory g1) k = drawsBefore t1 t2 ?rh k"
        unfolding rh1 using len by (intro drawsBefore_snoc) simp
      show "drawNo (drawsBefore t1 t2 (roundHistory g1) k) r0 < p"
      proof (cases "k < c")
        case True
        with k prev show ?thesis unfolding e by simp
      next
        case False
        with k have "k = c" by simp
        with True d show ?thesis unfolding e by simp
      qed
    qed
    have c1: "1 \<le> c + 1" "c + 1 \<le> maxRounds" using True by simp_all
    from "1.IH" [OF refl prod.collapse refl True pr refl coh1 t1 len1 c1 rng1 prev1]
    obtain g' w' n where r: "whileLoop p (c + 1) g1 w2 = Inr (g', w', n)" "coherent g'"
      "length (roundHistory g') = n" "c + 1 \<le> n" "n \<le> maxRounds"
      "\<forall>k. 1 \<le> k \<and> k < n \<longrightarrow> drawNo (drawsBefore t1 t2 (roundHistory g') k) r0 < p"
      "n < maxRounds \<longrightarrow> \<not> drawNo (drawsBefore t1 t2 (roundHistory g') n) r0 < p"
      "w' = w2\<lparr>globalRandom := skip (drawsBefore t1 t2 (roundHistory g') n + 1) r0\<rparr>"
      by blast
    have "whileLoop p c g w = Inr (g', w', n)"
      using True pr r(1) by (subst whileLoop.simps) (simp add: split_beta Let_def)
    moreover have "w' = w\<lparr>globalRandom := skip (drawsBefore t1 t2 (roundHistory g') n + 1) r0\<rparr>"
      unfolding r(8) w2 by simp
    moreover have "c \<le> n" using r(4) by simp
    ultimately show ?thesis using r(2,3,5,6,7) by blast
  qed
qed


lemma startMatch_isGTFT:
  "isGTFT (strategy1 (startMatch g)) = isGTFT (strategy1 g)"
  "isGTFT (strategy2 (startMatch g)) = isGTFT (strategy2 g)"
  by (auto simp: startMatch_def reset_def isGTFT_def split: variant.splits)

text \<open>
  Claim C3. In the indefinite mode a match of two strategies of the five classes returns
  a result, for every continuation probability \<open>p\<close>. It has between 1 and 10000
  rounds. After each round exactly one value is drawn from the shared source: the draw
  after round \<open>k\<close> is the one that follows the \<open>k - 1\<close> earlier continuation draws and
  the forgiveness draws of the rounds 1 to \<open>k\<close>, and the source is left one draw after
  the draw that follows the last round. Each of these draws but the last is below \<open>p\<close>,
  and the last one is not below \<open>p\<close> unless the match has reached 10000 rounds, where it
  ends whatever the draw is, with the result returned as usual and a warning written to
  the console.
\<close>

theorem indefinite_mode:
  assumes "continuationProb g = Some p" and "concrete (strategy1 g)" and "concrete (strategy2 g)"
  shows "\<exists>res g' w'. play g w = Inr (res, g', w') \<and>
           1 \<le> length (rounds res) \<and> length (rounds res) \<le> 10000 \<and>
           (\<forall>k. 1 \<le> k \<and> k < length (rounds res) \<longrightarrow>
              drawNo (drawsBefore (isGTFT (strategy1 g)) (isGTFT (strategy2 g)) (rounds res) k)
                (globalRandom w) < p) \<and>
           (length (rounds res) < 10000 \<longrightarrow>
              \<not> drawNo (drawsBefore (isGTFT (strategy1 g)) (isGTFT (strategy2 g)) (rounds res)
                         (length (rounds res)))
                  (globalRandom w) < p) \<and>
           globalRandom w' =
             skip (drawsBefore (isGTFT (strategy1 g)) (isGTFT (strategy2 g)) (rounds res)
                     (length (rounds res)) + 1)
               (globalRandom w) \<and>
           console w' =
             (if length (rounds res) = 10000
              then console w @ [''Game reached maximum round limit of 10000 rounds'']
              else console w)"
proof -
  let ?t1 = "isGTFT (strategy1 g)" and ?t2 = "isGTFT (strategy2 g)"
  let ?g0 = "startMatch g"
  have coh0: "coherent ?g0" by (rule startMatch_coherent [OF assms(2,3)])
  from playRound_draws [OF coh0, of w]
  obtain g1 w1 r j where pr: "playRound ?g0 w = Inr (g1, w1)" and coh1: "coherent g1"
    and rh1: "roundHistory g1 = [r]"
    and t1: "isGTFT (strategy1 g1) = ?t1" "isGTFT (strategy2 g1) = ?t2"
    and sd: "strategyDraws ?t1 ?t2 (roundHistory g1) = strategyDraws ?t1 ?t2 [] + j"
    and w1: "w1 = w\<lparr>globalRandom := skip j (globalRandom w)\<rparr>"
    by (auto simp: startMatch_isGTFT startMatch_fields)
  have j: "drawsBefore ?t1 ?t2 (roundHistory g1) 1 = j"
    using sd rh1 by (simp add: drawsBefore_def strategyDraws_def forgivenessDraws_def)
  have "\<exists>g' w' n. whileLoop p 1 g1 w1 = Inr (g', w', n) \<and> coherent g' \<and>
           length (roundHistory g') = n \<and> 1 \<le> n \<and> n \<le> maxRounds \<and>
           (\<forall>k. 1 \<le> k \<and> k < n \<longrightarrow>
              drawNo (drawsBefore ?t1 ?t2 (roundHistory g') k) (globalRandom w) < p) \<and>
           (n < maxRounds \<longrightarrow>
              \<not> drawNo (drawsBefore ?t1 ?t2 (roundHistory g') n) (globalRandom w) < p) \<and>
           w' = w1\<lparr>globalRandom :=
                     skip (drawsBefore ?t1 ?t2 (roundHistory g') n + 1) (globalRandom w)\<rparr>"
  proof (rule whileLoop_draws [OF coh1 t1])
    show "length (roundHistory g1) = 1" using rh1 by simp
    show "(1::nat) \<le> 1" by simp
    show "1 \<le> maxRounds" by (simp add: maxRounds_def)
    show "globalRandom w1 = skip (drawsBefore ?t1 ?t2 (roundHistory g1) 1) (globalRandom w)"
      unfolding j w1 by simp
    show "\<forall>k. 1 \<le> k \<and> k < 1 \<longrightarrow>
        drawNo (drawsBefore ?t1 ?t2 (roundHistory g1) k) (globalRandom w) < p"
      by simp
  qed
  then obtain g' w' n where wl: "whileLoop p 1 g1 w1 = Inr (g', w', n)"
    and n: "length (roundHistory g') = n" "1 \<le> n" "n \<le> maxRounds"
    and below: "\<forall>k. 1 \<le> k \<and> k < n \<longrightarrow>
              drawNo (drawsBefore ?t1 ?t2 (roundHistory g') k) (globalRandom w) < p"
    and last: "n < maxRounds \<longrightarrow>
              \<not> drawNo (drawsBefore ?t1 ?t2 (roundHistory g') n) (globalRandom w) < p"
    and w': "w' = w1\<lparr>globalRandom :=
                     skip (drawsBefore ?t1 ?t2 (roundHistory g') n + 1) (globalRandom w)\<rparr>"
    by blast
  let ?w = "if n \<ge> maxRounds then
              w'\<lparr>console := console w' @ [''Game reached maximum round limit of 10000 rounds'']\<rparr>
            else w'"
  let ?res = "matchResult g'"
  have p: "play g w = Inr (?res, g', ?w)"
    using assms(1) pr wl by (simp add: play_def startMatch_fields)
  have r: "rounds ?res = roundHistory g'" by (simp add: matchResult_def)
  have m: "maxRounds = 10000" by (simp add: maxRounds_def)
  have "1 \<le> length (rounds ?res)" "length (rounds ?res) \<le> 10000"
    using n unfolding r m by simp_all
  moreover have "\<forall>k. 1 \<le> k \<and> k < length (rounds ?res) \<longrightarrow>
      drawNo (drawsBefore ?t1 ?t2 (rounds ?res) k) (globalRandom w) < p"
    using below unfolding r n(1) .
  moreover have "length (rounds ?res) < 10000 \<longrightarrow>
      \<not> drawNo (drawsBefore ?t1 ?t2 (rounds ?res) (length (rounds ?res))) (globalRandom w) < p"
    using last unfolding r n(1) m .
  moreover have "globalRandom ?w =
      skip (drawsBefore ?t1 ?t2 (rounds ?res) (length (rounds ?res)) + 1) (globalRandom w)"
    unfolding r n(1) w' by simp
  moreover have "console ?w =
      (if length (rounds ?res) = 10000
       then console w @ [''Game reached maximum round limit of 10000 rounds'']
       else console w)"
    using n(3) unfolding r n(1) w' w1 m by simp
  ultimately show ?thesis using p by blast
qed

theorem indefinite_mode_witness:
  "continuationProb (newGame newAlwaysDefect (newGenerousTitForTat (Some 0.5))
       \<lparr>T = 5, R = 3, P = 1, S = 0\<rparr> 0 (Some 0.7)) = Some 0.7 \<and>
   concrete newAlwaysDefect \<and> concrete (newGenerousTitForTat (Some 0.5)) \<and>
   map_sum id (\<lambda>x. (map move1 (rounds (fst x)), map move2 (rounds (fst x)), snd (snd x)))
     (play (newGame newAlwaysDefect (newGenerousTitForTat (Some 0.5))
              \<lparr>T = 5, R = 3, P = 1, S = 0\<rparr> 0 (Some 0.7))
        \<lparr>globalRandom = \<lparr>seed = 42\<rparr>, console = []\<rparr>) =
     Inr ([DEFECT, DEFECT], [COOPERATE, COOPERATE],
          \<lparr>globalRandom = \<lparr>seed = 42 + 3 * 0x6D2B79F5\<rparr>, console = []\<rparr>) \<and>
   drawNo 0 \<lparr>seed = 42\<rparr> < 0.7 \<and> \<not> drawNo 2 \<lparr>seed = 42\<rparr> < 0.7 \<and>
   skip 3 \<lparr>seed = 42\<rparr> = \<lparr>seed = 42 + 3 * 0x6D2B79F5\<rparr>"
proof -
  let ?s2 = "newGenerousTitForTat (Some 0.5)"
  let ?g = "newGame newAlwaysDefect ?s2 \<lparr>T = 5, R = 3, P = 1, S = 0\<rparr> 0 (Some 0.7)"
  let ?w = "\<lparr>globalRandom = \<lparr>seed = 42\<rparr>, console = []\<rparr>"
  have c: "concrete newAlwaysDefect" "concrete ?s2"
    by (simp_all add: concrete_def newAlwaysDefect_def newGenerousTitForTat_def newStrategy_def)
  have e: "strategy1 ?g = newAlwaysDefect" "strategy2 ?g = ?s2"
    "continuationProb ?g = Some 0.7"
    by (simp_all add: newGame_def)
  have h: "concrete (strategy1 ?g)" "concrete (strategy2 ?g)"
    unfolding e by (rule c)+
  have t: "isGTFT newAlwaysDefect = False" "isGTFT ?s2 = True"
    by (simp_all add: isGTFT_def newAlwaysDefect_def newGenerousTitForTat_def newStrategy_def)
  have v: "map_sum id (\<lambda>x. (map move1 (rounds (fst x)), map move2 (rounds (fst x)), snd (snd x)))
      (play ?g ?w) =
     Inr ([DEFECT, DEFECT], [COOPERATE, COOPERATE],
          \<lparr>globalRandom = \<lparr>seed = 42 + 3 * 0x6D2B79F5\<rparr>, console = []\<rparr>)"
    by code_simp
  from indefinite_mode [OF e(3) h, of ?w]
  obtain res g' w' where p: "play ?g ?w = Inr (res, g', w')"
    and below: "\<forall>k. 1 \<le> k \<and> k < length (rounds res) \<longrightarrow>
        drawNo (drawsBefore False True (rounds res) k) (globalRandom ?w) < 0.7"
    and last: "length (rounds res) < 10000 \<longrightarrow>
        \<not> drawNo (drawsBefore False True (rounds res) (length (rounds res))) (globalRandom ?w)
            < 0.7"
    and rng: "globalRandom w' =
        skip (drawsBefore False True (rounds res) (length (rounds res)) + 1) (globalRandom ?w)"
    unfolding e t by blast
  from v p have r: "map move1 (rounds res) = [DEFECT, DEFECT]"
    "map move2 (rounds res) = [COOPERATE, COOPERATE]"
    "w' = \<lparr>globalRandom = \<lparr>seed = 42 + 3 * 0x6D2B79F5\<rparr>, console = []\<rparr>"
    by simp_all
  have "length (map move1 (rounds res)) = 2" unfolding r(1) by simp
  then have l: "length (rounds res) = 2" by simp
  have t1: "map move1 (take 1 (rounds res)) = [DEFECT]"
    "map move2 (take 1 (rounds res)) = [COOPERATE]"
    using r(1,2) by (simp_all add: take_map [symmetric])
  have d1: "drawsBefore False True (rounds res) 1 = 0"
    unfolding drawsBefore_def strategyDraws_def forgivenessDraws_def t1 by simp
  have d2: "drawsBefore False True (rounds res) 2 = 2"
    using l by (simp add: drawsBefore_def strategyDraws_def forgivenessDraws_def r)
  from below [rule_format, of 1] l have b: "drawNo 0 \<lparr>seed = 42\<rparr> < 0.7"
    unfolding d1 by simp
  from last l d2 have n: "\<not> drawNo 2 \<lparr>seed = 42\<rparr> < 0.7" by simp
  from rng l d2 r(3) have s: "skip 3 \<lparr>seed = 42\<rparr> = \<lparr>seed = 42 + 3 * 0x6D2B79F5\<rparr>"
    by simp
  from e(3) c v b n s show ?thesis by blast
qed


subsection \<open>The round-robin tournament\<close>

lemma foldE_appends:
  assumes "Q st"
    and "\<And>x st. x \<in> set xs \<Longrightarrow> Q st \<Longrightarrow> \<exists>st'. f x st = Inr st' \<and> Q st' \<and> tr st' = tr st @ g x"
  shows "\<exists>st'. foldE f xs st = Inr st' \<and> Q st' \<and> tr st' = tr st @ concat (map g xs)"
  using assms
proof (induction xs arbitrary: st)
  case Nil
  then show ?case by simp
next
  case (Cons x xs)
  from Cons.prems(2) [of x st] Cons.prems(1)
  obtain st1 where 1: "f x st = Inr st1" "Q st1" "tr st1 = tr st @ g x"
    by auto
  have "\<exists>st'. foldE f xs st1 = Inr st' \<and> Q st' \<and> tr st' = tr st1 @ concat (map g xs)"
    by (rule Cons.IH [OF 1(2)]) (use Cons.prems(2) in auto)
  then show ?case using 1 by auto
qed

lemma createStrategy_index:
  assumes "i < 5"
  shows "\<exists>s. createStrategy (getAllStrategyCodes ! i) ps = Inr s \<and> concrete s \<and>
           name s = displayNames ! i"
proof -
  from assms consider "i = 0" | "i = 1" | "i = 2" | "i = 3" | "i = 4" by linarith
  then show ?thesis
    by cases
      (simp_all add: createStrategy_def getAllStrategyCodes_def displayNames_def concrete_def
        newAlwaysCooperate_def newAlwaysDefect_def newTitForTat_def newGrimTrigger_def
        newGenerousTitForTat_def newStrategy_def Let_def)
qed

lemma play_names:
  assumes "concrete (strategy1 g)" and "concrete (strategy2 g)"
  shows "\<exists>res g' w'. play g w = Inr (res, g', w') \<and>
           pairNames res = (name (strategy1 g), name (strategy2 g))"
proof -
  let ?I = "\<lambda>g'. coherent g' \<and> name (strategy1 g') = name (strategy1 g) \<and>
                 name (strategy2 g') = name (strategy2 g)"
  have "\<exists>g' w'. play g w = Inr (matchResult g', g', w') \<and> ?I g' \<and>
           (case continuationProb g of
              None \<Rightarrow> length (roundHistory g') = nat (numRounds g)
            | Some p \<Rightarrow> 1 \<le> length (roundHistory g') \<and> length (roundHistory g') \<le> maxRounds)"
  proof (rule play_rule [where Inv = ?I])
    show "?I (startMatch g)"
      using startMatch_coherent [OF assms] by (simp add: startMatch_fields)
    show "\<And>g w g' w'. ?I g \<Longrightarrow> playRound g w = Inr (g', w') \<Longrightarrow> ?I g'"
      using playRound_coherent_eq by metis
    show "\<And>g. ?I g \<Longrightarrow> coherent g" by simp
  qed
  then show ?thesis by (auto simp: pairNames_def matchResult_def)
qed

lemma playMatch_index:
  assumes "i < 5" and "j < 5"
  shows "\<exists>res w'. playMatch t (getAllStrategyCodes ! i) (getAllStrategyCodes ! j) w = Inr (res, w') \<and>
           pairNames res = (displayNames ! i, displayNames ! j)"
proof -
  from createStrategy_index [OF assms(1), of "strategyParams t"]
  obtain s1 where 1: "createStrategy (getAllStrategyCodes ! i) (strategyParams t) = Inr s1"
    "concrete s1" "name s1 = displayNames ! i"
    by blast
  from createStrategy_index [OF assms(2), of "strategyParams t"]
  obtain s2 where 2: "createStrategy (getAllStrategyCodes ! j) (strategyParams t) = Inr s2"
    "concrete s2" "name s2 = displayNames ! j"
    by blast
  let ?g = "newGame s1 s2 (t_payoffMatrix t) (t_numRounds t) (t_continuationProb t)"
  have "concrete (strategy1 ?g)" "concrete (strategy2 ?g)"
    using 1(2) 2(2) by (simp_all add: newGame_def)
  from play_names [OF this, of w]
  obtain res g' w' where "play ?g w = Inr (res, g', w')"
    "pairNames res = (name (strategy1 ?g), name (strategy2 ?g))"
    by blast
  then show ?thesis
    using 1 2 by (simp add: playMatch_def newGame_def)
qed

lemma setCell_row:
  assumes "n1 \<in> dom m"
  shows "\<exists>m'. setCell m n1 n2 v = Inr m' \<and> dom m' = dom m"
  using assms by (auto simp: setCell_def)

lemma displayNames_index: "i < 5 \<Longrightarrow> displayNames ! i \<in> set displayNames"
  by (rule nth_mem) (simp add: displayNames_def)

lemma pairBody_index:
  assumes "i < 5" and "j < 5" and "rowsPresent st"
  shows "\<exists>st'. pairBody t getAllStrategyCodes i j st = Inr st' \<and> rowsPresent st' \<and>
           namesPlayed st' = namesPlayed st @ [(displayNames ! i, displayNames ! j)]"
proof -
  obtain mrs pm w where st: "st = (mrs, pm, w)" by (cases st)
  from playMatch_index [OF assms(1,2), of t w]
  obtain res w' where pm: "playMatch t (getAllStrategyCodes ! i) (getAllStrategyCodes ! j) w
      = Inr (res, w')"
    and n: "strategy1Name res = displayNames ! i" "strategy2Name res = displayNames ! j"
    by (auto simp: pairNames_def)
  from assms(3) have d: "set displayNames \<subseteq> dom pm" by (simp add: rowsPresent_def st)
  with displayNames_index [OF assms(1)] have "strategy1Name res \<in> dom pm"
    unfolding n by blast
  from setCell_row [OF this, of "strategy2Name res" "finalScore1 res"]
  obtain pm1 where 1: "setCell pm (strategy1Name res) (strategy2Name res) (finalScore1 res)
      = Inr pm1" "dom pm1 = dom pm"
    by blast
  from d displayNames_index [OF assms(2)] have "strategy2Name res \<in> dom pm1"
    unfolding n 1(2) by blast
  from setCell_row [OF this, of "strategy1Name res" "finalScore2 res"]
  obtain pm2 where 2: "setCell pm1 (strategy2Name res) (strategy1Name res) (finalScore2 res)
      = Inr pm2" "dom pm2 = dom pm1"
    by blast
  have "pairBody t getAllStrategyCodes i j st = Inr (mrs @ [res], pm2, w')"
    by (simp add: pairBody_def st pm 1 2)
  moreover have "rowsPresent (mrs @ [res], pm2, w')"
    using d by (simp add: rowsPresent_def 1 2)
  moreover have "namesPlayed (mrs @ [res], pm2, w') =
      namesPlayed st @ [(displayNames ! i, displayNames ! j)]"
    by (simp add: namesPlayed_def st pairNames_def n)
  ultimately show ?thesis by simp
qed

lemma selfBody_index:
  assumes "i < 5" and "rowsPresent st"
  shows "\<exists>st'. selfBody t getAllStrategyCodes i st = Inr st' \<and> rowsPresent st' \<and>
           namesPlayed st' = namesPlayed st @ []"
proof -
  obtain mrs pm w where st: "st = (mrs, pm, w)" by (cases st)
  from playMatch_index [OF assms(1,1), of t w]
  obtain res w' where pm: "playMatch t (getAllStrategyCodes ! i) (getAllStrategyCodes ! i) w
      = Inr (res, w')"
    and n: "strategy1Name res = displayNames ! i"
    by (auto simp: pairNames_def)
  from assms(2) have d: "set displayNames \<subseteq> dom pm" by (simp add: rowsPresent_def st)
  with displayNames_index [OF assms(1)] have "strategy1Name res \<in> dom pm"
    unfolding n by blast
  from setCell_row [OF this, of "strategy1Name res" "finalScore1 res"]
  obtain pm1 where 1: "setCell pm (strategy1Name res) (strategy1Name res) (finalScore1 res)
      = Inr pm1" "dom pm1 = dom pm"
    by blast
  have "selfBody t getAllStrategyCodes i st = Inr (mrs, pm1, w')"
    by (simp add: selfBody_def st pm 1)
  moreover have "rowsPresent (mrs, pm1, w')"
    using d by (simp add: rowsPresent_def 1)
  moreover have "namesPlayed (mrs, pm1, w') = namesPlayed st @ []"
    by (simp add: namesPlayed_def st)
  ultimately show ?thesis by simp
qed


lemma pairLoop_names:
  assumes "rowsPresent st"
  shows "\<exists>st'. pairLoop t getAllStrategyCodes st = Inr st' \<and> rowsPresent st' \<and>
           namesPlayed st' = namesPlayed st @
             concat (map (\<lambda>i. concat (map (\<lambda>j. [(displayNames ! i, displayNames ! j)])
                                      [i + 1 ..< 5])) [0 ..< 5])"
proof -
  have l: "length getAllStrategyCodes = 5" by (simp add: getAllStrategyCodes_def)
  have inner: "\<exists>st'. foldE (\<lambda>j. pairBody t getAllStrategyCodes i j) [i + 1 ..< 5] st = Inr st' \<and>
         rowsPresent st' \<and>
         namesPlayed st' = namesPlayed st @
           concat (map (\<lambda>j. [(displayNames ! i, displayNames ! j)]) [i + 1 ..< 5])"
    if "i \<in> set [0 ..< 5]" and "rowsPresent st" for i st
  proof (rule foldE_appends [where Q = rowsPresent and tr = namesPlayed, OF that(2)])
    fix j st1 assume "j \<in> set [i + 1 ..< 5]" and "rowsPresent st1"
    then show "\<exists>st'. pairBody t getAllStrategyCodes i j st1 = Inr st' \<and> rowsPresent st' \<and>
        namesPlayed st' = namesPlayed st1 @ [(displayNames ! i, displayNames ! j)]"
      using that(1) by (intro pairBody_index) simp_all
  qed
  show ?thesis
    unfolding pairLoop_def l
    by (rule foldE_appends [where Q = rowsPresent and tr = namesPlayed, OF assms]) (rule inner)
qed

lemma selfLoop_names:
  assumes "rowsPresent st"
  shows "\<exists>st'. selfLoop t getAllStrategyCodes st = Inr st' \<and> namesPlayed st' = namesPlayed st"
proof -
  have l: "length getAllStrategyCodes = 5" by (simp add: getAllStrategyCodes_def)
  have "\<exists>st'. foldE (\<lambda>i. selfBody t getAllStrategyCodes i) [0 ..< 5] st = Inr st' \<and>
      rowsPresent st' \<and> namesPlayed st' = namesPlayed st @ concat (map (\<lambda>i. []) [0 ..< 5])"
  proof (rule foldE_appends [where Q = rowsPresent and tr = namesPlayed, OF assms])
    fix i st1 assume "i \<in> set [0 ..< 5]" and "rowsPresent st1"
    then show "\<exists>st'. selfBody t getAllStrategyCodes i st1 = Inr st' \<and> rowsPresent st' \<and>
        namesPlayed st' = namesPlayed st1 @ []"
      by (intro selfBody_index) simp_all
  qed
  then show ?thesis unfolding selfLoop_def l by auto
qed

lemma tenPairs:
  "concat (map (\<lambda>i. concat (map (\<lambda>j. [(displayNames ! i, displayNames ! j)]) [i + 1 ..< 5]))
     [0 ..< 5]) =
   [(''Always Cooperate (ALL-C)'', ''Always Defect (ALL-D)''),
    (''Always Cooperate (ALL-C)'', ''Tit-for-Tat (TFT)''),
    (''Always Cooperate (ALL-C)'', ''Grim Trigger''),
    (''Always Cooperate (ALL-C)'', ''Generous TFT''),
    (''Always Defect (ALL-D)'', ''Tit-for-Tat (TFT)''),
    (''Always Defect (ALL-D)'', ''Grim Trigger''),
    (''Always Defect (ALL-D)'', ''Generous TFT''),
    (''Tit-for-Tat (TFT)'', ''Grim Trigger''),
    (''Tit-for-Tat (TFT)'', ''Generous TFT''),
    (''Grim Trigger'', ''Generous TFT'')]"
  by code_simp

lemma dom_foldl_upd:
  "dom (foldl (\<lambda>m n. m(n \<mapsto> f n)) m0 xs) = dom m0 \<union> set xs"
  by (induction xs arbitrary: m0) auto

lemma initMatrix_rows: "dom (initMatrix names) = set names"
  unfolding initMatrix_def by (simp add: dom_foldl_upd)

lemma strategyNames_eq:
  "mapE (\<lambda>code. map_sum id name (createStrategy code ps)) getAllStrategyCodes = Inr displayNames"
  by (simp add: getAllStrategyCodes_def createStrategy_def displayNames_def
      newAlwaysCooperate_def newAlwaysDefect_def newTitForTat_def newGrimTrigger_def
      newGenerousTitForTat_def newStrategy_def Let_def)

lemma initAggregated_eq:
  "\<exists>agg. initAggregated ps getAllStrategyCodes = Inr agg \<and>
         (\<forall>n \<in> set displayNames. agg n = Some zeroStats)"
  by (simp add: initAggregated_def getAllStrategyCodes_def createStrategy_def displayNames_def
      newAlwaysCooperate_def newAlwaysDefect_def newTitForTat_def newGrimTrigger_def
      newGenerousTitForTat_def newStrategy_def Let_def zeroStats_def)


lemma addResult_present:
  assumes "agg n = Some d"
  shows "addResult agg n sc rate =
           Inr (agg(n \<mapsto> d\<lparr>totalScore := totalScore d + sc,
                             gamesPlayed := gamesPlayed d + 1,
                             cooperationCount := cooperationCount d + rate\<rparr>))"
  using assms by (simp add: addResult_def)

lemma aggregateResult_present:
  assumes "strategy1Name r \<in> dom agg" and "strategy2Name r \<in> dom agg"
  shows "\<exists>agg'. aggregateResult r agg = Inr agg' \<and> dom agg' = dom agg \<and>
           (\<forall>n d. agg n = Some d \<longrightarrow>
              (\<exists>d'. agg' n = Some d' \<and>
                 gamesPlayed d' = gamesPlayed d + gamesOf n r \<and>
                 totalScore d' = totalScore d + scoreOf n r))"
proof -
  from assms(1) obtain d1 where d1: "agg (strategy1Name r) = Some d1" by blast
  let ?d1 = "d1\<lparr>totalScore := totalScore d1 + finalScore1 r,
                 gamesPlayed := gamesPlayed d1 + 1,
                 cooperationCount := cooperationCount d1 + cooperationRate1 r\<rparr>"
  let ?agg1 = "agg(strategy1Name r \<mapsto> ?d1)"
  from assms(2) obtain d2 where d2: "?agg1 (strategy2Name r) = Some d2"
    by (cases "strategy2Name r = strategy1Name r") auto
  let ?d2 = "d2\<lparr>totalScore := totalScore d2 + finalScore2 r,
                 gamesPlayed := gamesPlayed d2 + 1,
                 cooperationCount := cooperationCount d2 + cooperationRate2 r\<rparr>"
  let ?agg2 = "?agg1(strategy2Name r \<mapsto> ?d2)"
  have e: "aggregateResult r agg = Inr ?agg2"
    unfolding aggregateResult_def
      addResult_present [where agg = agg and n = "strategy1Name r", OF d1]
    by (simp only: sum.case
        addResult_present [where agg = ?agg1 and n = "strategy2Name r", OF d2])
  have "dom ?agg2 = dom agg" using assms by auto
  moreover have "\<exists>d'. ?agg2 n = Some d' \<and>
                 gamesPlayed d' = gamesPlayed d + gamesOf n r \<and>
                 totalScore d' = totalScore d + scoreOf n r" if "agg n = Some d" for n d
    using that d1 d2 by (auto simp: gamesOf_def scoreOf_def split: if_splits)
  ultimately show ?thesis using e by blast
qed

lemma aggregate_fold:
  assumes "\<forall>r \<in> set mrs. strategy1Name r \<in> dom agg \<and> strategy2Name r \<in> dom agg"
  shows "\<exists>agg'. foldE aggregateResult mrs agg = Inr agg' \<and> dom agg' = dom agg \<and>
           (\<forall>n d. agg n = Some d \<longrightarrow>
              (\<exists>d'. agg' n = Some d' \<and>
                 gamesPlayed d' = gamesPlayed d + sum_list (map (gamesOf n) mrs) \<and>
                 totalScore d' = totalScore d + sum_list (map (scoreOf n) mrs)))"
  using assms
proof (induction mrs arbitrary: agg)
  case Nil
  then show ?case by simp
next
  case (Cons r mrs)
  from Cons.prems have "strategy1Name r \<in> dom agg" "strategy2Name r \<in> dom agg" by simp_all
  from aggregateResult_present [OF this]
  obtain agg1 where 1: "aggregateResult r agg = Inr agg1" "dom agg1 = dom agg"
    "\<forall>n d. agg n = Some d \<longrightarrow>
              (\<exists>d'. agg1 n = Some d' \<and>
                 gamesPlayed d' = gamesPlayed d + gamesOf n r \<and>
                 totalScore d' = totalScore d + scoreOf n r)"
    by blast
  have "\<forall>r \<in> set mrs. strategy1Name r \<in> dom agg1 \<and> strategy2Name r \<in> dom agg1"
    using Cons.prems 1(2) by simp
  from Cons.IH [OF this]
  obtain agg' where 2: "foldE aggregateResult mrs agg1 = Inr agg'" "dom agg' = dom agg1"
    "\<forall>n d. agg1 n = Some d \<longrightarrow>
              (\<exists>d'. agg' n = Some d' \<and>
                 gamesPlayed d' = gamesPlayed d + sum_list (map (gamesOf n) mrs) \<and>
                 totalScore d' = totalScore d + sum_list (map (scoreOf n) mrs))"
    by blast
  have "foldE aggregateResult (r # mrs) agg = Inr agg'" using 1(1) 2(1) by simp
  moreover have "dom agg' = dom agg" using 1(2) 2(2) by simp
  moreover have "\<exists>d'. agg' n = Some d' \<and>
                 gamesPlayed d' = gamesPlayed d + sum_list (map (gamesOf n) (r # mrs)) \<and>
                 totalScore d' = totalScore d + sum_list (map (scoreOf n) (r # mrs))"
    if "agg n = Some d" for n d
  proof -
    from 1(3) that obtain d1 where a: "agg1 n = Some d1"
      "gamesPlayed d1 = gamesPlayed d + gamesOf n r" "totalScore d1 = totalScore d + scoreOf n r"
      by blast
    from 2(3) a(1) obtain d' where b: "agg' n = Some d'"
      "gamesPlayed d' = gamesPlayed d1 + sum_list (map (gamesOf n) mrs)"
      "totalScore d' = totalScore d1 + sum_list (map (scoreOf n) mrs)"
      by blast
    from a b show ?thesis by simp
  qed
  ultimately show ?case by blast
qed


lemma gamesOf_names:
  "gamesOf n r = (case pairNames r of (a, b) \<Rightarrow> (if a = n then 1 else 0) + (if b = n then 1 else 0))"
  by (simp add: gamesOf_def pairNames_def)

lemma four_games:
  assumes "map pairNames mrs =
     [(''Always Cooperate (ALL-C)'', ''Always Defect (ALL-D)''),
      (''Always Cooperate (ALL-C)'', ''Tit-for-Tat (TFT)''),
      (''Always Cooperate (ALL-C)'', ''Grim Trigger''),
      (''Always Cooperate (ALL-C)'', ''Generous TFT''),
      (''Always Defect (ALL-D)'', ''Tit-for-Tat (TFT)''),
      (''Always Defect (ALL-D)'', ''Grim Trigger''),
      (''Always Defect (ALL-D)'', ''Generous TFT''),
      (''Tit-for-Tat (TFT)'', ''Grim Trigger''),
      (''Tit-for-Tat (TFT)'', ''Generous TFT''),
      (''Grim Trigger'', ''Generous TFT'')]"
    and "n \<in> set displayNames"
  shows "sum_list (map (gamesOf n) mrs) = 4"
proof -
  have "map (gamesOf n) mrs =
      map (\<lambda>(a, b). (if a = n then 1 else 0) + (if b = n then 1 else 0)) (map pairNames mrs)"
    by (simp add: gamesOf_names [abs_def] comp_def)
  also have "sum_list \<dots> = 4"
    unfolding assms(1) using assms(2) by (auto simp: displayNames_def)
  finally show ?thesis .
qed

lemma names_of_pairs:
  assumes "map pairNames mrs =
     [(''Always Cooperate (ALL-C)'', ''Always Defect (ALL-D)''),
      (''Always Cooperate (ALL-C)'', ''Tit-for-Tat (TFT)''),
      (''Always Cooperate (ALL-C)'', ''Grim Trigger''),
      (''Always Cooperate (ALL-C)'', ''Generous TFT''),
      (''Always Defect (ALL-D)'', ''Tit-for-Tat (TFT)''),
      (''Always Defect (ALL-D)'', ''Grim Trigger''),
      (''Always Defect (ALL-D)'', ''Generous TFT''),
      (''Tit-for-Tat (TFT)'', ''Grim Trigger''),
      (''Tit-for-Tat (TFT)'', ''Generous TFT''),
      (''Grim Trigger'', ''Generous TFT'')]"
    and "r \<in> set mrs"
  shows "strategy1Name r \<in> set displayNames \<and> strategy2Name r \<in> set displayNames"
proof -
  from assms(2) have "pairNames r \<in> set (map pairNames mrs)" by simp
  then show ?thesis
    unfolding assms(1) by (auto simp: pairNames_def displayNames_def)
qed

text \<open>
  Claim C1, as the code has it. A round-robin tournament returns, whatever its payoff
  matrix, mode, parameters and random source, a list \<open>matchResults\<close> of exactly 10
  matches, one for each pair of distinct strategies in the order of the strategy codes:
  the results of the 5 self-play matches are written to the diagonal of the score matrix
  and are not pushed to \<open>matchResults\<close>. Every strategy's \<open>gamesPlayed\<close> is 4, its
  \<open>totalScore\<close> is the sum of its final scores over the matches of \<open>matchResults\<close> (its
  self-play match is not among them), and its \<open>averageScore\<close> is that sum over 4.
\<close>

theorem roundRobin_matches:
  "\<exists>out t' w'. runRoundRobin t w = Inr (out, t', w') \<and>
     strategyNames out = displayNames \<and>
     map pairNames (matchResults out) =
       [(''Always Cooperate (ALL-C)'', ''Always Defect (ALL-D)''),
        (''Always Cooperate (ALL-C)'', ''Tit-for-Tat (TFT)''),
        (''Always Cooperate (ALL-C)'', ''Grim Trigger''),
        (''Always Cooperate (ALL-C)'', ''Generous TFT''),
        (''Always Defect (ALL-D)'', ''Tit-for-Tat (TFT)''),
        (''Always Defect (ALL-D)'', ''Grim Trigger''),
        (''Always Defect (ALL-D)'', ''Generous TFT''),
        (''Tit-for-Tat (TFT)'', ''Grim Trigger''),
        (''Tit-for-Tat (TFT)'', ''Generous TFT''),
        (''Grim Trigger'', ''Generous TFT'')] \<and>
     length (matchResults out) = 10 \<and>
     (\<forall>n \<in> set displayNames.
        \<exists>d. aggregated out n = Some d \<and> gamesPlayed d = 4 \<and>
            totalScore d = sum_list (map (scoreOf n) (matchResults out)) \<and>
            averageScore d = Some (totalScore d / 4))"
proof -
  let ?ten = "[(''Always Cooperate (ALL-C)'', ''Always Defect (ALL-D)''),
        (''Always Cooperate (ALL-C)'', ''Tit-for-Tat (TFT)''),
        (''Always Cooperate (ALL-C)'', ''Grim Trigger''),
        (''Always Cooperate (ALL-C)'', ''Generous TFT''),
        (''Always Defect (ALL-D)'', ''Tit-for-Tat (TFT)''),
        (''Always Defect (ALL-D)'', ''Grim Trigger''),
        (''Always Defect (ALL-D)'', ''Generous TFT''),
        (''Tit-for-Tat (TFT)'', ''Grim Trigger''),
        (''Tit-for-Tat (TFT)'', ''Generous TFT''),
        (''Grim Trigger'', ''Generous TFT'')]"
  let ?st0 = "([], initMatrix displayNames, w) :: loopState"
  have r0: "rowsPresent ?st0" by (simp add: rowsPresent_def initMatrix_rows)
  from pairLoop_names [OF r0, of t]
  obtain st1 where 1: "pairLoop t getAllStrategyCodes ?st0 = Inr st1" "rowsPresent st1"
    "namesPlayed st1 = ?ten"
    unfolding tenPairs by (auto simp: namesPlayed_def)
  from selfLoop_names [OF 1(2), of t]
  obtain st2 where 2: "selfLoop t getAllStrategyCodes st1 = Inr st2"
    "namesPlayed st2 = ?ten"
    unfolding 1(3) by blast
  obtain mrs pm w2 where st2: "st2 = (mrs, pm, w2)" by (cases st2)
  have ten: "map pairNames mrs = ?ten" using 2(2) by (simp add: st2 namesPlayed_def)
  from initAggregated_eq [of "strategyParams t"]
  obtain agg0 where 3: "initAggregated (strategyParams t) getAllStrategyCodes = Inr agg0"
    "\<forall>n \<in> set displayNames. agg0 n = Some zeroStats"
    by blast
  have "\<forall>r \<in> set mrs. strategy1Name r \<in> dom agg0 \<and> strategy2Name r \<in> dom agg0"
    using names_of_pairs [OF ten] 3(2) by blast
  from aggregate_fold [OF this]
  obtain agg1 where 4: "foldE aggregateResult mrs agg0 = Inr agg1"
    "\<forall>n d. agg0 n = Some d \<longrightarrow>
              (\<exists>d'. agg1 n = Some d' \<and>
                 gamesPlayed d' = gamesPlayed d + sum_list (map (gamesOf n) mrs) \<and>
                 totalScore d' = totalScore d + sum_list (map (scoreOf n) mrs))"
    by blast
  let ?out = "\<lparr>matchResults = mrs, aggregated = averages agg1, scoreMatrix = pm,
               strategyNames = displayNames\<rparr>"
  have run: "runRoundRobin t w = Inr (?out, t\<lparr>results := mrs\<rparr>, w2)"
    by (simp add: runRoundRobin_def strategyNames_eq 1(1) 2(1) st2 3(1) 4(1))
  have agg: "\<exists>d. aggregated ?out n = Some d \<and> gamesPlayed d = 4 \<and>
            totalScore d = sum_list (map (scoreOf n) (matchResults ?out)) \<and>
            averageScore d = Some (totalScore d / 4)" if n: "n \<in> set displayNames" for n
  proof -
    from 3(2) n have "agg0 n = Some zeroStats" by blast
    with 4(2) obtain d' where d': "agg1 n = Some d'"
      "gamesPlayed d' = gamesPlayed zeroStats + sum_list (map (gamesOf n) mrs)"
      "totalScore d' = totalScore zeroStats + sum_list (map (scoreOf n) mrs)"
      by blast
    have g: "gamesPlayed d' = 4" "totalScore d' = sum_list (map (scoreOf n) mrs)"
      using d'(2,3) four_games [OF ten n] by (simp_all add: zeroStats_def)
    show ?thesis
      using d'(1) g by (simp add: averages_def divide_js_def)
  qed
  have "length (map pairNames mrs) = 10" unfolding ten by simp
  then have len: "length (matchResults ?out) = 10" by simp
  have tp: "map pairNames (matchResults ?out) = ?ten" using ten by simp
  have sn: "strategyNames ?out = displayNames" by simp
  have all: "\<forall>n \<in> set displayNames.
        \<exists>d. aggregated ?out n = Some d \<and> gamesPlayed d = 4 \<and>
            totalScore d = sum_list (map (scoreOf n) (matchResults ?out)) \<and>
            averageScore d = Some (totalScore d / 4)"
    using agg by blast
  show ?thesis
    by (rule exI [of _ ?out], rule exI [of _ "t\<lparr>results := mrs\<rparr>"], rule exI [of _ w2])
      (intro conjI run sn tp len all)
qed

theorem roundRobin_matches_witness:
  "''Grim Trigger'' \<in> set displayNames \<and>
   (\<exists>out t' w'.
      runRoundRobin
        (newTournament \<lparr>T = 5, R = 3, P = 1, S = 0\<rparr> 1 \<lparr>forgiveness = Some 0.1\<rparr> None)
        \<lparr>globalRandom = \<lparr>seed = 42\<rparr>, console = []\<rparr> = Inr (out, t', w') \<and>
      length (matchResults out) = 10 \<and>
      (\<exists>d. aggregated out ''Grim Trigger'' = Some d \<and> gamesPlayed d = 4 \<and>
           totalScore d = sum_list (map (scoreOf ''Grim Trigger'') (matchResults out))))"
proof -
  let ?t = "newTournament \<lparr>T = 5, R = 3, P = 1, S = 0\<rparr> 1 \<lparr>forgiveness = Some 0.1\<rparr> None"
  let ?w = "\<lparr>globalRandom = \<lparr>seed = 42\<rparr>, console = []\<rparr>"
  have m: "''Grim Trigger'' \<in> set displayNames" by (simp add: displayNames_def)
  from roundRobin_matches [of ?t ?w]
  obtain out t' w' where r: "runRoundRobin ?t ?w = Inr (out, t', w')"
    "length (matchResults out) = 10"
    and a: "\<forall>n \<in> set displayNames.
        \<exists>d. aggregated out n = Some d \<and> gamesPlayed d = 4 \<and>
            totalScore d = sum_list (map (scoreOf n) (matchResults out)) \<and>
            averageScore d = Some (totalScore d / 4)"
    by blast
  from a [rule_format, OF m]
  have d: "\<exists>d. aggregated out ''Grim Trigger'' = Some d \<and> gamesPlayed d = 4 \<and>
           totalScore d = sum_list (map (scoreOf ''Grim Trigger'') (matchResults out))"
    by blast
  have "\<exists>out t' w'. runRoundRobin ?t ?w = Inr (out, t', w') \<and>
      length (matchResults out) = 10 \<and>
      (\<exists>d. aggregated out ''Grim Trigger'' = Some d \<and> gamesPlayed d = 4 \<and>
           totalScore d = sum_list (map (scoreOf ''Grim Trigger'') (matchResults out)))"
    by (rule exI [of _ out], rule exI [of _ t'], rule exI [of _ w']) (intro conjI r d)
  with m show ?thesis by (rule conjI)
qed

text \<open>
  The claim as the specification states it (15 matches, \<open>gamesPlayed\<close> 5, the self-play
  match counted in \<open>totalScore\<close>) fails on a tournament of one round per match: the run
  succeeds with 10 matches in \<open>matchResults\<close>; Always Defect has \<open>gamesPlayed\<close> 4 and
  \<open>totalScore\<close> 20, the 5 points of each of its four matches against the others, while
  its self-play match, recorded on the diagonal of the score matrix, earned it 1.
\<close>

theorem roundRobin_matches_counterexample:
  "\<not> isl (runRoundRobin
            (newTournament \<lparr>T = 5, R = 3, P = 1, S = 0\<rparr> 1 \<lparr>forgiveness = Some 0.1\<rparr> None)
            \<lparr>globalRandom = \<lparr>seed = 42\<rparr>, console = []\<rparr>) \<and>
   length (matchResults (fst (projr (runRoundRobin
            (newTournament \<lparr>T = 5, R = 3, P = 1, S = 0\<rparr> 1 \<lparr>forgiveness = Some 0.1\<rparr> None)
            \<lparr>globalRandom = \<lparr>seed = 42\<rparr>, console = []\<rparr>)))) = 10 \<and>
   map_option gamesPlayed (aggregated (fst (projr (runRoundRobin
            (newTournament \<lparr>T = 5, R = 3, P = 1, S = 0\<rparr> 1 \<lparr>forgiveness = Some 0.1\<rparr> None)
            \<lparr>globalRandom = \<lparr>seed = 42\<rparr>, console = []\<rparr>))) ''Always Defect (ALL-D)'')
     = Some 4 \<and>
   map_option totalScore (aggregated (fst (projr (runRoundRobin
            (newTournament \<lparr>T = 5, R = 3, P = 1, S = 0\<rparr> 1 \<lparr>forgiveness = Some 0.1\<rparr> None)
            \<lparr>globalRandom = \<lparr>seed = 42\<rparr>, console = []\<rparr>))) ''Always Defect (ALL-D)'')
     = Some 20 \<and>
   the (scoreMatrix (fst (projr (runRoundRobin
            (newTournament \<lparr>T = 5, R = 3, P = 1, S = 0\<rparr> 1 \<lparr>forgiveness = Some 0.1\<rparr> None)
            \<lparr>globalRandom = \<lparr>seed = 42\<rparr>, console = []\<rparr>))) ''Always Defect (ALL-D)'')
       ''Always Defect (ALL-D)''
     = Some (Some 1)"
  by code_simp

end
